theory Spec2Isabelle
  imports Main
begin

section \<open>The exec-approval manager of the gateway\<close>

text \<open>
  A shallow embedding of \<^verbatim>\<open>src/gateway/exec-approval-manager.ts\<close>: the class
  \<^verbatim>\<open>ExecApprovalManager\<close> with its pending registry, its expiry and eviction timers,
  its decision promises and its journal file.

  What the JavaScript runtime supplies is made explicit:
  \<^item> \<^verbatim>\<open>Date.now()\<close> is an argument \<open>now\<close> of every operation that reads the clock,
    and \<^verbatim>\<open>randomUUID()\<close> an argument \<open>uuid\<close> of \<open>create\<close>;
  \<^item> numbers are integers (milliseconds, a limit); strings are lists of 8-bit characters;
  \<^item> \<^verbatim>\<open>setTimeout\<close>/\<^verbatim>\<open>clearTimeout\<close> work on a table of timers, and the event loop
    running a timer's callback is the operation \<open>fire\<close>;
  \<^item> a promise is a cell that is unsettled or fulfilled, with a count of the calls of its
    resolving function;
  \<^item> \<^verbatim>\<open>node:fs\<close> is a small file system with directories, files and injected faults;
  \<^item> \<^verbatim>\<open>JSON.parse\<close> is a parameter (\<open>None\<close> where it throws), \<^verbatim>\<open>JSON.stringify\<close>
    of a journal entry is written out.
  An entry of the registry owns its record: the model does not follow the reference to
  the record object that the caller of \<open>register\<close> keeps.
\<close>

subsection \<open>Values\<close>

text \<open>An optional field that may also hold \<^verbatim>\<open>null\<close>: \<^verbatim>\<open>x?: T | null\<close>.\<close>

datatype 'a nullable = Undefined | Null | Value 'a

text \<open>\<^verbatim>\<open>x ?? null\<close>\<close>

fun or_null :: "'a nullable \<Rightarrow> 'a nullable" where
  "or_null Undefined = Null"
| "or_null Null = Null"
| "or_null (Value v) = Value v"

text \<open>
  Modelled from the spec: the type \<^verbatim>\<open>ExecApprovalDecision\<close> is imported from
  \<^verbatim>\<open>../infra/exec-approvals.js\<close>, which is not among the sources; the spec calls it an
  opaque approve/deny vocabulary and the tests pass strings.
\<close>

type_synonym ExecApprovalDecision = string

record ExecApprovalRequestPayload =
  command :: string
  cwd :: "string nullable"
  host :: "string nullable"
  security :: "string nullable"
  ask :: "string nullable"
  agentId :: "string nullable"
  resolvedPath :: "string nullable"
  sessionKey :: "string nullable"

record ExecApprovalRecord =
  rec_id :: string
  request :: ExecApprovalRequestPayload
  createdAtMs :: int
  expiresAtMs :: int
  requestedByConnId :: "string nullable"
  requestedByDeviceId :: "string nullable"
  requestedByClientId :: "string nullable"
  resolvedAtMs :: "int option"
  decision :: "ExecApprovalDecision option"
  resolvedBy :: "string nullable"

text \<open>
  The journal entry that \<open>appendJournalEntry\<close> builds. \<^verbatim>\<open>record.resolvedAtMs!\<close> is
  a compile-time assertion only, so the field is optional here as it is at run time.
\<close>

record JournalEntry =
  je_id :: string
  je_command :: string
  je_decision :: "ExecApprovalDecision option"
  je_resolvedBy :: "string nullable"
  je_resolvedAtMs :: "int option"
  je_requestedByDeviceId :: "string nullable"

definition RESOLVED_ENTRY_GRACE_MS :: int where
  "RESOLVED_ENTRY_GRACE_MS = 15000"

definition JOURNAL_FILENAME :: string where
  "JOURNAL_FILENAME = ''exec-approval-journal.jsonl''"

subsection \<open>Strings\<close>

definition nl :: char where
  "nl = CHR 0x0A"

text \<open>
  The white space and line terminators that \<^verbatim>\<open>String.prototype.trim\<close> removes, among the
  characters below 256: TAB, LF, VT, FF, CR, SP and NBSP.
\<close>

definition is_ws :: "char \<Rightarrow> bool" where
  "is_ws c = (c = CHR 0x09 \<or> c = CHR 0x0A \<or> c = CHR 0x0B \<or> c = CHR 0x0C \<or> c = CHR 0x0D
     \<or> c = CHR 0x20 \<or> c = CHR 0xA0)"

definition trim :: "string \<Rightarrow> string" where
  "trim s = rev (dropWhile is_ws (rev (dropWhile is_ws s)))"

text \<open>\<^verbatim>\<open>content.split("\n")\<close>: the pieces between line feeds, at least one piece.\<close>

fun split_nl :: "string \<Rightarrow> string list" where
  "split_nl [] = [[]]"
| "split_nl (c # cs) =
     (if c = nl then [] # split_nl cs
      else (case split_nl cs of
              [] \<Rightarrow> [[c]]
            | piece # pieces \<Rightarrow> (c # piece) # pieces))"

subsection \<open>JSON.stringify of a journal entry\<close>

definition hex_digit :: "nat \<Rightarrow> char" where
  "hex_digit n = (''0123456789abcdef'') ! (n mod 16)"

text \<open>
  \<^verbatim>\<open>QuoteJSONString\<close>: the quote, the backslash and every character below 0x20 are
  escaped; the rest is copied.
\<close>

definition json_escape_char :: "char \<Rightarrow> string" where
  "json_escape_char c =
     (if c = CHR 0x22 then [CHR 0x5C, CHR 0x22]
      else if c = CHR 0x5C then [CHR 0x5C, CHR 0x5C]
      else if c = CHR 0x08 then [CHR 0x5C, CHR ''b'']
      else if c = CHR 0x0C then [CHR 0x5C, CHR ''f'']
      else if c = CHR 0x0A then [CHR 0x5C, CHR ''n'']
      else if c = CHR 0x0D then [CHR 0x5C, CHR ''r'']
      else if c = CHR 0x09 then [CHR 0x5C, CHR ''t'']
      else if of_char c < (32::nat)
        then [CHR 0x5C, CHR ''u'', CHR ''0'', CHR ''0'',
              hex_digit (of_char c div 16), hex_digit (of_char c)]
      else [c])"

definition json_string :: "string \<Rightarrow> string" where
  "json_string s = [CHR 0x22] @ concat (map json_escape_char s) @ [CHR 0x22]"

fun digits :: "nat \<Rightarrow> string" where
  "digits n =
     (if n < 10 then [char_of (48 + n)]
      else digits (n div 10) @ [char_of (48 + n mod 10)])"

definition json_number :: "int \<Rightarrow> string" where
  "json_number i = (if i < 0 then CHR ''-'' # digits (nat (- i)) else digits (nat i))"

text \<open>
  A property of an object: \<^verbatim>\<open>undefined\<close> is left out, \<^verbatim>\<open>null\<close> is written
  \<^verbatim>\<open>null\<close>.
\<close>

definition json_key :: "string \<Rightarrow> string \<Rightarrow> string" where
  "json_key k v = json_string k @ '':'' @ v"

fun json_nullable_member :: "string \<Rightarrow> string nullable \<Rightarrow> string list" where
  "json_nullable_member k Undefined = []"
| "json_nullable_member k Null = [json_key k ''null'']"
| "json_nullable_member k (Value v) = [json_key k (json_string v)]"

fun intersperse :: "string \<Rightarrow> string list \<Rightarrow> string" where
  "intersperse sep [] = []"
| "intersperse sep [x] = x"
| "intersperse sep (x # y # ys) = x @ sep @ intersperse sep (y # ys)"

definition JSON_stringify :: "JournalEntry \<Rightarrow> string" where
  "JSON_stringify entry =
     ''{'' @ intersperse '',''
       ([json_key ''id'' (json_string (je_id entry)),
         json_key ''command'' (json_string (je_command entry))]
        @ (case je_decision entry of None \<Rightarrow> []
           | Some d \<Rightarrow> [json_key ''decision'' (json_string d)])
        @ json_nullable_member ''resolvedBy'' (je_resolvedBy entry)
        @ (case je_resolvedAtMs entry of None \<Rightarrow> []
           | Some t \<Rightarrow> [json_key ''resolvedAtMs'' (json_number t)])
        @ json_nullable_member ''requestedByDeviceId'' (je_requestedByDeviceId entry))
     @ ''}''"

subsection \<open>The file system\<close>

text \<open>The \<^verbatim>\<open>code\<close> of a \<^verbatim>\<open>NodeJS.ErrnoException\<close>.\<close>

datatype errno = ENOENT | ENOTDIR | EACCES | ENOSPC | EISDIR | EEXIST | EIO

record FileNode =
  f_content :: string
  f_mode :: nat

text \<open>
  Directories, regular files, and for each operation the fault the environment injects
  on a path (permission denied, disk full and the like), if any. Of the ancestors of a
  path only its directory (\<open>path_dirname\<close>) is looked at: a regular file standing
  where that directory should be makes the path unreachable (\<^verbatim>\<open>ENOTDIR\<close>); what
  stands further up is not followed.
\<close>

record FS =
  dirs :: "string set"
  files :: "string \<rightharpoonup> FileNode"
  mkdir_fault :: "string \<Rightarrow> errno option"
  append_fault :: "string \<Rightarrow> errno option"
  read_fault :: "string \<Rightarrow> errno option"

text \<open>
  \<^verbatim>\<open>path.join(dir, name)\<close> and \<^verbatim>\<open>path.dirname\<close>, without the normalisation of
  \<^verbatim>\<open>node:path\<close>: paths are compared as strings.
\<close>

definition path_join :: "string \<Rightarrow> string \<Rightarrow> string" where
  "path_join d f = d @ ''/'' @ f"

definition path_dirname :: "string \<Rightarrow> string" where
  "path_dirname p = rev (drop 1 (dropWhile (\<lambda>c. c \<noteq> CHR ''/'') (rev p)))"

text \<open>\<^verbatim>\<open>fs.mkdirSync(p, { recursive: true })\<close>: no error when the directory exists.\<close>

definition mkdirSync :: "string \<Rightarrow> FS \<Rightarrow> errno + FS" where
  "mkdirSync p fs =
     (case mkdir_fault fs p of
        Some e \<Rightarrow> Inl e
      | None \<Rightarrow>
          if files fs p \<noteq> None then Inl EEXIST
          else Inr (fs\<lparr>dirs := insert p (dirs fs)\<rparr>))"

text \<open>
  \<^verbatim>\<open>fs.appendFileSync(p, data, { encoding, mode })\<close>: the file is created with
  \<open>mode\<close> when it does not exist; an existing file keeps its mode.
\<close>

definition appendFileSync :: "string \<Rightarrow> string \<Rightarrow> nat \<Rightarrow> FS \<Rightarrow> errno + FS" where
  "appendFileSync p data mode fs =
     (case append_fault fs p of
        Some e \<Rightarrow> Inl e
      | None \<Rightarrow>
          if p \<in> dirs fs then Inl EISDIR
          else if files fs (path_dirname p) \<noteq> None then Inl ENOTDIR
          else if path_dirname p \<notin> dirs fs then Inl ENOENT
          else (case files fs p of
                  None \<Rightarrow> Inr (fs\<lparr>files := (files fs)(p \<mapsto> \<lparr>f_content = data, f_mode = mode\<rparr>)\<rparr>)
                | Some f \<Rightarrow>
                    Inr (fs\<lparr>files := (files fs)(p \<mapsto> f\<lparr>f_content := f_content f @ data\<rparr>)\<rparr>)))"

text \<open>
  \<^verbatim>\<open>fs.readFileSync(p, "utf-8")\<close>: \<^verbatim>\<open>ENOTDIR\<close> when the directory of the path is a
  regular file, \<^verbatim>\<open>ENOENT\<close> when the path leads to nothing.
\<close>

definition readFileSync :: "string \<Rightarrow> FS \<Rightarrow> errno + string" where
  "readFileSync p fs =
     (case read_fault fs p of
        Some e \<Rightarrow> Inl e
      | None \<Rightarrow>
          if p \<in> dirs fs then Inl EISDIR
          else if files fs (path_dirname p) \<noteq> None then Inl ENOTDIR
          else (case files fs p of
                  None \<Rightarrow> Inl ENOENT
                | Some f \<Rightarrow> Inr (f_content f)))"

subsection \<open>Timers, promises and the registry\<close>

text \<open>
  The two closures handed to \<^verbatim>\<open>setTimeout\<close>: the expiry of an entry (in
  \<open>register\<close>) and the eviction of an entry after the grace period (in \<open>resolve\<close>
  and inside the expiry). An entry object is named by its index in \<open>entries\<close>; the
  eviction closure of the expiry reads \<^verbatim>\<open>record.id\<close>, which no operation changes.
\<close>

datatype callback = ExpireCb nat | EvictCb string nat

datatype timer_status = Scheduled | Cleared | Fired

record Timer =
  t_callback :: callback
  t_delay :: int
  t_status :: timer_status

text \<open>A promise of \<^verbatim>\<open>ExecApprovalDecision | null\<close>; \<open>None\<close> is \<^verbatim>\<open>null\<close>.\<close>

datatype promise_state = Unsettled | Fulfilled "ExecApprovalDecision option"

record Promise =
  p_state :: promise_state
  p_resolve_calls :: nat

text \<open>
  \<^verbatim>\<open>PendingEntry\<close>: the record, the handle of the expiry timer and the promise. The
  field \<^verbatim>\<open>resolve\<close> is the resolving function of that promise (\<open>promise_resolve\<close>
  below); \<^verbatim>\<open>reject\<close> is never called.
\<close>

record PendingEntry =
  pe_record :: ExecApprovalRecord
  pe_timer :: nat
  pe_promise :: nat

text \<open>
  The manager (\<open>persistDir\<close>, \<open>pending\<close>) together with the objects it refers to:
  the entry objects, the timers of the event loop, the promises, and the file system.
  An object is named by its index in its list. JavaScript has no dangling reference;
  here an index held by the registry, by an entry or by a callback names an allocated
  object in every state that a manager reaches (\<open>heap_ok\<close> below).
\<close>

record Manager =
  persistDir :: "string option"
  pending :: "string \<rightharpoonup> nat"
  entries :: "PendingEntry list"
  timers :: "Timer list"
  promises :: "Promise list"
  filesys :: FS

text \<open>\<^verbatim>\<open>new ExecApprovalManager({ persistDir })\<close> on a file system \<open>disk\<close>.\<close>

definition new_manager :: "string option \<Rightarrow> FS \<Rightarrow> Manager" where
  "new_manager dir disk =
     \<lparr>persistDir = dir, pending = Map.empty, entries = [], timers = [], promises = [],
      filesys = disk\<rparr>"

definition setTimeout :: "callback \<Rightarrow> int \<Rightarrow> Manager \<Rightarrow> nat \<times> Manager" where
  "setTimeout cb ms s =
     (length (timers s),
      s\<lparr>timers := timers s @ [\<lparr>t_callback = cb, t_delay = ms, t_status = Scheduled\<rparr>]\<rparr>)"

text \<open>\<^verbatim>\<open>clearTimeout\<close> cancels a timer that has not run; otherwise it does nothing.\<close>

definition clearTimeout :: "nat \<Rightarrow> Manager \<Rightarrow> Manager" where
  "clearTimeout t s =
     s\<lparr>timers := (timers s)[t := (if t_status (timers s ! t) = Scheduled
                                   then (timers s ! t)\<lparr>t_status := Cleared\<rparr>
                                   else timers s ! t)]\<rparr>"

text \<open>
  The resolving function of promise \<open>p\<close>: the first call fulfils the promise, a later
  call changes nothing but is counted.
\<close>

definition promise_resolve :: "nat \<Rightarrow> ExecApprovalDecision option \<Rightarrow> Manager \<Rightarrow> Manager" where
  "promise_resolve p v s =
     s\<lparr>promises := (promises s)[p :=
        \<lparr>p_state = (if p_state (promises s ! p) = Unsettled then Fulfilled v
                    else p_state (promises s ! p)),
         p_resolve_calls = Suc (p_resolve_calls (promises s ! p))\<rparr>]\<rparr>"

subsection \<open>The journal\<close>

definition journalPath :: "Manager \<Rightarrow> string option" where
  "journalPath s =
     (case persistDir s of
        None \<Rightarrow> None
      | Some d \<Rightarrow> if d = [] then None else Some (path_join d JOURNAL_FILENAME))"

definition journal_entry :: "ExecApprovalRecord \<Rightarrow> JournalEntry" where
  "journal_entry record =
     \<lparr>je_id = rec_id record,
      je_command = command (request record),
      je_decision = decision record,
      je_resolvedBy = or_null (resolvedBy record),
      je_resolvedAtMs = resolvedAtMs record,
      je_requestedByDeviceId = or_null (requestedByDeviceId record)\<rparr>"

text \<open>The mode \<^verbatim>\<open>0o600\<close> is \<open>0x180\<close>: read and write for the owner.\<close>

definition appendJournalEntry :: "ExecApprovalRecord \<Rightarrow> Manager \<Rightarrow> Manager" where
  "appendJournalEntry record s =
     (case journalPath s of
        None \<Rightarrow> s
      | Some jp \<Rightarrow>
          (let entry = journal_entry record in
           case mkdirSync (path_dirname jp) (filesys s) of
             Inl err \<Rightarrow> s
           | Inr fs1 \<Rightarrow>
               (case appendFileSync jp (JSON_stringify entry @ [nl]) 0x180 fs1 of
                  Inl err \<Rightarrow> s\<lparr>filesys := fs1\<rparr>
                | Inr fs2 \<Rightarrow> s\<lparr>filesys := fs2\<rparr>)))"

text \<open>The loop of \<open>loadJournal\<close> over the lines, pushing onto \<open>acc\<close>.\<close>

fun parse_lines :: "(string \<Rightarrow> 'j option) \<Rightarrow> string list \<Rightarrow> 'j list \<Rightarrow> 'j list" where
  "parse_lines JSON_parse [] acc = acc"
| "parse_lines JSON_parse (line # rest) acc =
     (let trimmed = trim line in
      if trimmed = [] then parse_lines JSON_parse rest acc
      else (case JSON_parse trimmed of
              Some v \<Rightarrow> parse_lines JSON_parse rest (acc @ [v])
            | None \<Rightarrow> parse_lines JSON_parse rest acc))"

definition loadJournal :: "(string \<Rightarrow> 'j option) \<Rightarrow> Manager \<Rightarrow> errno + 'j list" where
  "loadJournal JSON_parse s =
     (case journalPath s of
        None \<Rightarrow> Inr []
      | Some jp \<Rightarrow>
          (case readFileSync jp (filesys s) of
             Inr content \<Rightarrow> Inr (parse_lines JSON_parse (split_nl content) [])
           | Inl err \<Rightarrow> if err = ENOENT then Inr [] else Inl err))"

text \<open>\<^verbatim>\<open>xs.slice(start)\<close> for an integer \<open>start\<close>.\<close>

definition slice :: "int \<Rightarrow> 'a list \<Rightarrow> 'a list" where
  "slice start xs =
     (let len = int (length xs);
          k = (if start < 0 then max (len + start) 0 else min start len)
      in drop (nat k) xs)"

definition getAuditLog :: "(string \<Rightarrow> 'j option) \<Rightarrow> int option \<Rightarrow> Manager \<Rightarrow> errno + 'j list" where
  "getAuditLog JSON_parse limit s =
     (case loadJournal JSON_parse s of
        Inl err \<Rightarrow> Inl err
      | Inr es \<Rightarrow>
          (case limit of
             Some l \<Rightarrow> if l > 0 then Inr (slice (- l) es) else Inr es
           | None \<Rightarrow> Inr es))"

subsection \<open>The operations\<close>

definition create ::
  "ExecApprovalRequestPayload \<Rightarrow> int \<Rightarrow> string nullable \<Rightarrow> int \<Rightarrow> string \<Rightarrow> Manager
     \<Rightarrow> ExecApprovalRecord \<times> Manager" where
  "create req timeoutMs id' now uuid s =
     (let resolvedId =
            (case id' of
               Value i \<Rightarrow> if i \<noteq> [] \<and> length (trim i) > 0 then trim i else uuid
             | Null \<Rightarrow> uuid
             | Undefined \<Rightarrow> uuid)
      in (\<lparr>rec_id = resolvedId, request = req, createdAtMs = now,
           expiresAtMs = now + timeoutMs,
           requestedByConnId = Undefined, requestedByDeviceId = Undefined,
           requestedByClientId = Undefined,
           resolvedAtMs = None, decision = None, resolvedBy = Undefined\<rparr>, s))"

text \<open>\<^verbatim>\<open>new Error(message)\<close>\<close>

datatype error = Error string

text \<open>
  \<open>register\<close> returns the promise, or throws. The new entry is built before its timer,
  so the closure of the timer holds the entry itself.
\<close>

definition register :: "ExecApprovalRecord \<Rightarrow> int \<Rightarrow> Manager \<Rightarrow> error + (nat \<times> Manager)" where
  "register record timeoutMs s =
     (case pending s (rec_id record) of
        Some e \<Rightarrow>
          (let existing = entries s ! e in
           if resolvedAtMs (pe_record existing) = None then Inr (pe_promise existing, s)
           else Inl (Error (''approval id '' @ [CHR 0x27] @ rec_id record @ [CHR 0x27]
                            @ '' already resolved'')))
      | None \<Rightarrow>
          (let p = length (promises s);
               s1 = s\<lparr>promises := promises s @ [\<lparr>p_state = Unsettled, p_resolve_calls = 0\<rparr>]\<rparr>;
               e = length (entries s1);
               (t, s2) = setTimeout (ExpireCb e) timeoutMs s1;
               entry = \<lparr>pe_record = record, pe_timer = t, pe_promise = p\<rparr>;
               s3 = s2\<lparr>entries := entries s2 @ [entry]\<rparr>;
               s4 = s3\<lparr>pending := (pending s3)(rec_id record \<mapsto> e)\<rparr>
           in Inr (p, s4)))"

definition resolve ::
  "string \<Rightarrow> ExecApprovalDecision \<Rightarrow> string nullable \<Rightarrow> int \<Rightarrow> Manager \<Rightarrow> bool \<times> Manager" where
  "resolve recordId dec who now s =
     (case pending s recordId of
        None \<Rightarrow> (False, s)
      | Some e \<Rightarrow>
          (let pend = entries s ! e in
           if resolvedAtMs (pe_record pend) \<noteq> None then (False, s)
           else
             (let s1 = clearTimeout (pe_timer pend) s;
                  record = (pe_record pend)\<lparr>resolvedAtMs := Some now, decision := Some dec,
                                           resolvedBy := or_null who\<rparr>;
                  s2 = s1\<lparr>entries := (entries s1)[e := pend\<lparr>pe_record := record\<rparr>]\<rparr>;
                  s3 = appendJournalEntry record s2;
                  s4 = promise_resolve (pe_promise pend) (Some dec) s3;
                  (t, s5) = setTimeout (EvictCb recordId e) RESOLVED_ENTRY_GRACE_MS s4
              in (True, s5))))"

text \<open>The callback of the expiry timer of entry \<open>e\<close>, run at time \<open>now\<close>.\<close>

definition expire :: "nat \<Rightarrow> int \<Rightarrow> Manager \<Rightarrow> Manager" where
  "expire e now s =
     (let entry = entries s ! e;
          record = (pe_record entry)\<lparr>resolvedAtMs := Some now, decision := None,
                                    resolvedBy := Null\<rparr>;
          s1 = s\<lparr>entries := (entries s)[e := entry\<lparr>pe_record := record\<rparr>]\<rparr>;
          s2 = promise_resolve (pe_promise entry) None s1;
          (t, s3) = setTimeout (EvictCb (rec_id record) e) RESOLVED_ENTRY_GRACE_MS s2
      in s3)"

text \<open>The eviction callback: delete the id if it still maps to this very entry.\<close>

definition evict :: "string \<Rightarrow> nat \<Rightarrow> Manager \<Rightarrow> Manager" where
  "evict recordId e s =
     (if pending s recordId = Some e then s\<lparr>pending := (pending s)(recordId := None)\<rparr>
      else s)"

fun run_callback :: "callback \<Rightarrow> int \<Rightarrow> Manager \<Rightarrow> Manager" where
  "run_callback (ExpireCb e) now s = expire e now s"
| "run_callback (EvictCb recordId e) now s = evict recordId e s"

text \<open>The event loop runs timer \<open>t\<close> at time \<open>now\<close>, if it is still scheduled.\<close>

definition fire :: "nat \<Rightarrow> int \<Rightarrow> Manager \<Rightarrow> Manager" where
  "fire t now s =
     (if t < length (timers s) \<and> t_status (timers s ! t) = Scheduled
      then run_callback (t_callback (timers s ! t)) now
             (s\<lparr>timers := (timers s)[t := (timers s ! t)\<lparr>t_status := Fired\<rparr>]\<rparr>)
      else s)"

definition getSnapshot :: "string \<Rightarrow> Manager \<Rightarrow> ExecApprovalRecord option" where
  "getSnapshot recordId s =
     (case pending s recordId of
        None \<Rightarrow> None
      | Some e \<Rightarrow> Some (pe_record (entries s ! e)))"

definition awaitDecision :: "string \<Rightarrow> Manager \<Rightarrow> nat option" where
  "awaitDecision recordId s =
     (case pending s recordId of
        None \<Rightarrow> None
      | Some e \<Rightarrow> Some (pe_promise (entries s ! e)))"

subsection \<open>Runs\<close>

text \<open>
  What can happen to a manager: a call of \<open>register\<close> (its exception, if any, is
  dropped here), a call of \<open>resolve\<close>, and the event loop running a timer.
\<close>

datatype event =
    Register ExecApprovalRecord int
  | Resolve string ExecApprovalDecision "string nullable" int
  | Fire nat int

fun step :: "event \<Rightarrow> Manager \<Rightarrow> Manager" where
  "step (Register record timeoutMs) s =
     (case register record timeoutMs s of Inl err \<Rightarrow> s | Inr (p, s') \<Rightarrow> s')"
| "step (Resolve recordId dec who now) s = snd (resolve recordId dec who now s)"
| "step (Fire t now) s = fire t now s"

fun run :: "event list \<Rightarrow> Manager \<Rightarrow> Manager" where
  "run [] s = s"
| "run (ev # evs) s = run evs (step ev s)"

subsection \<open>Invariants of the objects\<close>

text \<open>
  References point to allocated objects: the promise of entry \<open>e\<close> is promise \<open>e\<close>,
  its timer is the one timer whose callback is the expiry of \<open>e\<close>, and an id of the
  registry maps to an entry whose record has that id.
\<close>

definition heap_ok :: "Manager \<Rightarrow> bool" where
  "heap_ok s \<longleftrightarrow>
     length (promises s) = length (entries s) \<and>
     (\<forall>e < length (entries s).
        pe_promise (entries s ! e) = e \<and>
        pe_timer (entries s ! e) < length (timers s) \<and>
        t_callback (timers s ! pe_timer (entries s ! e)) = ExpireCb e) \<and>
     (\<forall>t < length (timers s). \<forall>e.
        t_callback (timers s ! t) = ExpireCb e \<longrightarrow>
          e < length (entries s) \<and> pe_timer (entries s ! e) = t) \<and>
     (\<forall>i e. pending s i = Some e \<longrightarrow>
        e < length (entries s) \<and> rec_id (pe_record (entries s ! e)) = i)"

text \<open>
  The race between \<open>resolve\<close> and the expiry, for the record, the timer and the
  promise of one entry: an unresolved record has its timer scheduled; a scheduled timer
  has an untouched promise; the resolving function of the promise has been called at most
  once, and only for a resolved record.
\<close>

definition entry_race_ok :: "ExecApprovalRecord \<Rightarrow> Timer \<Rightarrow> Promise \<Rightarrow> bool" where
  "entry_race_ok r tm pr \<longleftrightarrow>
     (resolvedAtMs r = None \<longrightarrow> t_status tm = Scheduled) \<and>
     (t_status tm = Scheduled \<longrightarrow> pr = \<lparr>p_state = Unsettled, p_resolve_calls = 0\<rparr>) \<and>
     p_resolve_calls pr \<le> 1 \<and>
     (p_resolve_calls pr = 1 \<longrightarrow> p_state pr \<noteq> Unsettled \<and> resolvedAtMs r \<noteq> None)"

definition race_ok :: "Manager \<Rightarrow> bool" where
  "race_ok s \<longleftrightarrow>
     (\<forall>e < length (entries s).
        entry_race_ok (pe_record (entries s ! e)) (timers s ! pe_timer (entries s ! e))
          (promises s ! e))"




subsection \<open>Observing the journal file\<close>

text \<open>The text of the journal file; empty when there is no path or no file.\<close>

definition journal_content :: "Manager \<Rightarrow> string" where
  "journal_content s =
     (case journalPath s of
        None \<Rightarrow> []
      | Some jp \<Rightarrow> (case files (filesys s) jp of None \<Rightarrow> [] | Some f \<Rightarrow> f_content f))"

text \<open>
  The journal can be written: a path is configured, the environment injects no fault
  into \<^verbatim>\<open>mkdirSync\<close> and \<^verbatim>\<open>appendFileSync\<close>, no file stands where the directory
  goes and no directory where the file goes.
\<close>

definition journal_writable :: "Manager \<Rightarrow> bool" where
  "journal_writable s =
     (case journalPath s of
        None \<Rightarrow> False
      | Some jp \<Rightarrow>
          mkdir_fault (filesys s) (path_dirname jp) = None \<and>
          files (filesys s) (path_dirname jp) = None \<and>
          append_fault (filesys s) jp = None \<and>
          jp \<notin> dirs (filesys s))"

text \<open>The journal can be read: the environment injects no fault into \<^verbatim>\<open>readFileSync\<close>.\<close>

definition journal_readable :: "Manager \<Rightarrow> bool" where
  "journal_readable s =
     (case journalPath s of
        None \<Rightarrow> True
      | Some jp \<Rightarrow> read_fault (filesys s) jp = None)"

text \<open>The record of a pending id as \<open>resolve\<close> stamps it.\<close>

definition stamped ::
  "ExecApprovalRecord \<Rightarrow> ExecApprovalDecision \<Rightarrow> string nullable \<Rightarrow> int \<Rightarrow> ExecApprovalRecord" where
  "stamped r dec who now =
     r\<lparr>resolvedAtMs := Some now, decision := Some dec, resolvedBy := or_null who\<rparr>"

text \<open>The line of the journal for a record.\<close>

definition journal_line :: "ExecApprovalRecord \<Rightarrow> string" where
  "journal_line r = JSON_stringify (journal_entry r) @ [nl]"

subsection \<open>A sequence of resolutions\<close>

text \<open>A call of \<open>resolve\<close>: the id, the decision, who resolved, and the time.\<close>

type_synonym resolution = "string \<times> ExecApprovalDecision \<times> string nullable \<times> int"



text \<open>The record of the id in \<open>s\<close> as the call stamps it, and its text in the journal.\<close>

definition resolution_record :: "Manager \<Rightarrow> resolution \<Rightarrow> ExecApprovalRecord" where
  "resolution_record s c =
     (case c of (i, dec, who, now) \<Rightarrow> stamped (the (getSnapshot i s)) dec who now)"

definition resolution_text :: "Manager \<Rightarrow> resolution \<Rightarrow> string" where
  "resolution_text s c = JSON_stringify (journal_entry (resolution_record s c))"

subsection \<open>Concrete inputs\<close>

text \<open>A file system with one directory, no file and no fault.\<close>

definition fs0 :: FS where
  "fs0 = \<lparr>dirs = {''/var''}, files = Map.empty, mkdir_fault = (\<lambda>p. None),
          append_fault = (\<lambda>p. None), read_fault = (\<lambda>p. None)\<rparr>"

definition request0 :: "string \<Rightarrow> ExecApprovalRequestPayload" where
  "request0 c = \<lparr>command = c, cwd = Undefined, host = Undefined, security = Undefined,
                 ask = Undefined, agentId = Undefined, resolvedPath = Undefined,
                 sessionKey = Undefined\<rparr>"

text \<open>The record that \<open>create\<close> returns for id \<open>i\<close> and command \<open>c\<close> at time 5.\<close>

definition record0 :: "string \<Rightarrow> string \<Rightarrow> ExecApprovalRecord" where
  "record0 i c =
     fst (create (request0 c) 30000 (Value i) 5 ''uuid-0'' (new_manager None fs0))"

text \<open>A stand-in for \<^verbatim>\<open>JSON.parse\<close>: a line parses when it starts with a brace.\<close>

definition parse0 :: "string \<Rightarrow> string option" where
  "parse0 l = (if take 1 l = ''{'' then Some l else None)"



section \<open>Properties\<close>

lemmas model_defs = resolve_def register_def setTimeout_def clearTimeout_def
  promise_resolve_def appendJournalEntry_def journalPath_def new_manager_def expire_def
  evict_def fire_def create_def Let_def record0_def request0_def fs0_def trim_def is_ws_def

subsection \<open>Frame lemmas\<close>

lemma trim_Nil: "trim [] = []"
  by (simp add: trim_def)

lemma appendJournalEntry_frame:
  "persistDir (appendJournalEntry r s) = persistDir s"
  "pending (appendJournalEntry r s) = pending s"
  "entries (appendJournalEntry r s) = entries s"
  "timers (appendJournalEntry r s) = timers s"
  "promises (appendJournalEntry r s) = promises s"
  by (simp_all add: appendJournalEntry_def Let_def split: option.split sum.split)

lemma journalPath_cong: "persistDir s' = persistDir s \<Longrightarrow> journalPath s' = journalPath s"
  by (simp add: journalPath_def)

lemma resolve_fst:
  "fst (resolve recordId dec who now s) \<longleftrightarrow>
     (\<exists>e. pending s recordId = Some e \<and> resolvedAtMs (pe_record (entries s ! e)) = None)"
  by (auto simp add: resolve_def Let_def split: option.split prod.split)

subsection \<open>A failed resolve changes nothing\<close>

text \<open>
  C10. Whenever \<open>resolve\<close> returns \<^verbatim>\<open>false\<close>, the state after the call is the state
  before it: the registry, every record, every timer, every promise and the file system
  (so the journal) are the same. It returns \<^verbatim>\<open>false\<close> exactly when the id is unknown or
  its record is already resolved.
\<close>

theorem resolve_false_unchanged:
  "(\<not> fst (resolve recordId dec who now s) \<longrightarrow> snd (resolve recordId dec who now s) = s) \<and>
   (\<not> fst (resolve recordId dec who now s) \<longleftrightarrow>
      (pending s recordId = None \<or>
       (\<exists>e. pending s recordId = Some e \<and>
            resolvedAtMs (pe_record (entries s ! e)) \<noteq> None)))"
  by (auto simp add: resolve_def Let_def split: option.split prod.split)

theorem resolve_false_unchanged_witness:
  "\<not> fst (resolve ''a'' ''deny'' Undefined 9
           (run [Register (record0 ''a'' ''ls'') 30000, Resolve ''a'' ''approve'' Undefined 7]
              (new_manager None fs0))) \<and>
   snd (resolve ''a'' ''deny'' Undefined 9
           (run [Register (record0 ''a'' ''ls'') 30000, Resolve ''a'' ''approve'' Undefined 7]
              (new_manager None fs0))) =
     run [Register (record0 ''a'' ''ls'') 30000, Resolve ''a'' ''approve'' Undefined 7]
       (new_manager None fs0)"
proof -
  let ?s = "run [Register (record0 ''a'' ''ls'') 30000, Resolve ''a'' ''approve'' Undefined 7]
              (new_manager None fs0)"
  have h: "\<not> fst (resolve ''a'' ''deny'' Undefined 9 ?s)"
    by (simp add: model_defs)
  from resolve_false_unchanged [of "''a''" "''deny''" Undefined 9 ?s] h
  have "snd (resolve ''a'' ''deny'' Undefined 9 ?s) = ?s"
    by blast
  with h show ?thesis by blast
qed

subsection \<open>Frame lemmas for events\<close>

lemma journalPath_None_iff:
  "journalPath s = None \<longleftrightarrow> persistDir s = None \<or> persistDir s = Some []"
  by (simp add: journalPath_def split: option.split)

lemma appendJournalEntry_filesys_cong:
  "persistDir s' = persistDir s \<Longrightarrow> filesys s' = filesys s \<Longrightarrow>
     filesys (appendJournalEntry r s') = filesys (appendJournalEntry r s)"
  by (simp add: appendJournalEntry_def journalPath_def Let_def split: option.split sum.split)

lemma appendJournalEntry_no_dir: "journalPath s = None \<Longrightarrow> appendJournalEntry r s = s"
  by (simp add: appendJournalEntry_def)

lemma register_frame:
  "register r ms s = Inr (p, s') \<Longrightarrow> persistDir s' = persistDir s \<and> filesys s' = filesys s"
  by (auto simp add: register_def setTimeout_def Let_def split: option.splits if_splits)

lemma resolve_persistDir: "persistDir (snd (resolve i d w n s)) = persistDir s"
  by (simp add: resolve_def setTimeout_def clearTimeout_def promise_resolve_def Let_def
      appendJournalEntry_frame split: option.split prod.split)

lemma fire_frame: "persistDir (fire t n s) = persistDir s \<and> filesys (fire t n s) = filesys s"
  by (cases "t_callback (timers s ! t)")
     (simp_all add: fire_def expire_def evict_def setTimeout_def promise_resolve_def Let_def)

lemma resolve_filesys_no_dir:
  "journalPath s = None \<Longrightarrow> filesys (snd (resolve i d w n s)) = filesys s"
  by (simp add: resolve_def setTimeout_def clearTimeout_def promise_resolve_def Let_def
      appendJournalEntry_def journalPath_def split: option.split prod.split)

lemma step_persistDir: "persistDir (step ev s) = persistDir s"
  by (cases ev) (auto simp add: resolve_persistDir fire_frame dest: register_frame split: sum.split)

lemma run_persistDir: "persistDir (run evs s) = persistDir s"
  by (induction evs arbitrary: s) (simp_all add: step_persistDir)

lemma step_filesys_no_dir: "journalPath s = None \<Longrightarrow> filesys (step ev s) = filesys s"
  by (cases ev) (auto simp add: resolve_filesys_no_dir fire_frame dest: register_frame split: sum.split)

lemma run_filesys_no_dir: "journalPath s = None \<Longrightarrow> filesys (run evs s) = filesys s"
proof (induction evs arbitrary: s)
  case Nil
  then show ?case by simp
next
  case (Cons ev evs)
  have "journalPath (step ev s) = journalPath s"
    by (rule journalPath_cong) (rule step_persistDir)
  with Cons show ?case by (simp add: step_filesys_no_dir)
qed

lemma register_fresh:
  "pending s (rec_id r) = None \<Longrightarrow>
     register r ms s =
       Inr (length (promises s),
            s\<lparr>promises := promises s @ [\<lparr>p_state = Unsettled, p_resolve_calls = 0\<rparr>],
              timers := timers s @ [\<lparr>t_callback = ExpireCb (length (entries s)), t_delay = ms,
                                      t_status = Scheduled\<rparr>],
              entries := entries s @ [\<lparr>pe_record = r, pe_timer = length (timers s),
                                        pe_promise = length (promises s)\<rparr>],
              pending := (pending s)(rec_id r \<mapsto> length (entries s))\<rparr>)"
  by (simp add: register_def setTimeout_def Let_def)

subsection \<open>Creating a record\<close>

text \<open>
  C8, as stated, says that the record gets the supplied id whenever that id is
  non-empty after trimming. The code stores \<^verbatim>\<open>id.trim()\<close>: for the id \<open>'' a''\<close>
  the record's id is \<open>''a''\<close>.
\<close>

theorem create_keeps_supplied_id_counterexample:
  "trim '' a'' \<noteq> [] \<and>
   rec_id (fst (create (request0 ''ls'') 30000 (Value '' a'') 5 ''uuid-0''
                  (new_manager None fs0))) \<noteq> '' a''"
  by (simp add: model_defs)

text \<open>
  C8 (amended). \<open>create\<close> returns a record with \<open>createdAtMs\<close> the current time and
  \<open>expiresAtMs\<close> that time plus \<open>timeoutMs\<close>, with the given request and no
  resolution; its id is the supplied id with the white space at both ends removed when
  that is non-empty, and the generated UUID otherwise (also for \<^verbatim>\<open>null\<close> and
  \<^verbatim>\<open>undefined\<close>); the manager, so its registry, is unchanged.
\<close>

theorem create_record:
  "fst (create req timeoutMs id' now uuid s) =
     \<lparr>rec_id = (case id' of
                  Value i \<Rightarrow> if trim i \<noteq> [] then trim i else uuid
                | Null \<Rightarrow> uuid
                | Undefined \<Rightarrow> uuid),
      request = req, createdAtMs = now, expiresAtMs = now + timeoutMs,
      requestedByConnId = Undefined, requestedByDeviceId = Undefined,
      requestedByClientId = Undefined,
      resolvedAtMs = None, decision = None, resolvedBy = Undefined\<rparr> \<and>
   snd (create req timeoutMs id' now uuid s) = s"
  by (cases id') (auto simp add: create_def Let_def trim_Nil)

subsection \<open>Registering an id that is tracked\<close>

text \<open>
  C4. When the id of the record is tracked by the registry, \<open>register\<close> creates
  nothing: if the tracked record is unresolved it returns the promise of the tracked
  entry (the one \<open>awaitDecision\<close> gives) and the state is unchanged, so no second timer
  exists; if the tracked record is resolved it throws the error
  \<^verbatim>\<open>approval id '...' already resolved\<close>.
\<close>

theorem register_tracked:
  assumes "getSnapshot (rec_id record) s = Some existing"
  shows "register record timeoutMs s =
           (if resolvedAtMs existing = None
            then Inr (the (awaitDecision (rec_id record) s), s)
            else Inl (Error (''approval id '' @ [CHR 0x27] @ rec_id record @ [CHR 0x27]
                             @ '' already resolved'')))"
  using assms
  by (auto simp add: register_def getSnapshot_def awaitDecision_def Let_def
      split: option.splits)

text \<open>
  The witness registers a record, registers its id again (the same promise 0, the same
  state), resolves it and registers the id once more (the error).
\<close>

theorem register_tracked_witness:
  "getSnapshot ''a'' (run [Register (record0 ''a'' ''ls'') 30000] (new_manager None fs0))
     = Some (record0 ''a'' ''ls'') \<and>
   register (record0 ''a'' ''ls'') 30000
       (run [Register (record0 ''a'' ''ls'') 30000] (new_manager None fs0)) =
     Inr (0, run [Register (record0 ''a'' ''ls'') 30000] (new_manager None fs0)) \<and>
   register (record0 ''a'' ''pwd'') 1000
       (run [Register (record0 ''a'' ''ls'') 30000, Resolve ''a'' ''approve'' Undefined 7]
          (new_manager None fs0)) =
     Inl (Error ''approval id 'a' already resolved'')"
proof -
  let ?s1 = "run [Register (record0 ''a'' ''ls'') 30000] (new_manager None fs0)"
  let ?s2 = "run [Register (record0 ''a'' ''ls'') 30000, Resolve ''a'' ''approve'' Undefined 7]
               (new_manager None fs0)"
  have id_a: "rec_id (record0 ''a'' c) = ''a''" for c
    by (simp add: model_defs)
  have h1: "getSnapshot (rec_id (record0 ''a'' ''ls'')) ?s1 = Some (record0 ''a'' ''ls'')"
    by (simp add: getSnapshot_def model_defs)
  have u1: "resolvedAtMs (record0 ''a'' ''ls'') = None"
    by (simp add: model_defs)
  have p1: "the (awaitDecision (rec_id (record0 ''a'' ''ls'')) ?s1) = 0"
    by (simp add: awaitDecision_def model_defs)
  have h2: "getSnapshot (rec_id (record0 ''a'' ''pwd'')) ?s2 =
              Some ((record0 ''a'' ''ls'')\<lparr>resolvedAtMs := Some 7, decision := Some ''approve'',
                                          resolvedBy := Null\<rparr>)"
    by (simp add: getSnapshot_def model_defs)
  from register_tracked [OF h1, of 30000] u1 p1
  have a: "register (record0 ''a'' ''ls'') 30000 ?s1 = Inr (0, ?s1)"
    by simp
  from register_tracked [OF h2, of 1000]
  have b: "register (record0 ''a'' ''pwd'') 1000 ?s2 =
             Inl (Error ''approval id 'a' already resolved'')"
    by (simp add: id_a)
  from h1 a b show ?thesis by (simp add: id_a)
qed

subsection \<open>Reading the journal\<close>







subsection \<open>What a successful resolve and a running timer change\<close>

lemma resolve_success:
  assumes "pending s i = Some e" and "resolvedAtMs (pe_record (entries s ! e)) = None"
  shows "fst (resolve i dec who now s)"
    and "persistDir (snd (resolve i dec who now s)) = persistDir s"
    and "pending (snd (resolve i dec who now s)) = pending s"
    and "entries (snd (resolve i dec who now s)) =
           (entries s)[e := (entries s ! e)\<lparr>pe_record :=
              (pe_record (entries s ! e))\<lparr>resolvedAtMs := Some now, decision := Some dec,
                                            resolvedBy := or_null who\<rparr>\<rparr>]"
    and "timers (snd (resolve i dec who now s)) =
           (timers s)[pe_timer (entries s ! e) :=
              (if t_status (timers s ! pe_timer (entries s ! e)) = Scheduled
               then (timers s ! pe_timer (entries s ! e))\<lparr>t_status := Cleared\<rparr>
               else timers s ! pe_timer (entries s ! e))]
           @ [\<lparr>t_callback = EvictCb i e, t_delay = RESOLVED_ENTRY_GRACE_MS,
                t_status = Scheduled\<rparr>]"
    and "promises (snd (resolve i dec who now s)) =
           (promises s)[pe_promise (entries s ! e) :=
              \<lparr>p_state = (if p_state (promises s ! pe_promise (entries s ! e)) = Unsettled
                           then Fulfilled (Some dec)
                           else p_state (promises s ! pe_promise (entries s ! e))),
                p_resolve_calls = Suc (p_resolve_calls (promises s ! pe_promise (entries s ! e)))\<rparr>]"
    and "filesys (snd (resolve i dec who now s)) =
           filesys (appendJournalEntry
              ((pe_record (entries s ! e))\<lparr>resolvedAtMs := Some now, decision := Some dec,
                                            resolvedBy := or_null who\<rparr>) s)"
proof -
  let ?r = "(pe_record (entries s ! e))\<lparr>resolvedAtMs := Some now, decision := Some dec,
                                            resolvedBy := or_null who\<rparr>"
  let ?s2 = "(clearTimeout (pe_timer (entries s ! e)) s)
               \<lparr>entries := (entries (clearTimeout (pe_timer (entries s ! e)) s))
                   [e := (entries s ! e)\<lparr>pe_record := ?r\<rparr>]\<rparr>"
  have eq: "resolve i dec who now s =
              (True, snd (setTimeout (EvictCb i e) RESOLVED_ENTRY_GRACE_MS
                 (promise_resolve (pe_promise (entries s ! e)) (Some dec)
                    (appendJournalEntry ?r ?s2))))"
    using assms by (simp add: resolve_def Let_def split: prod.split)
  have fs: "filesys (appendJournalEntry ?r ?s2) = filesys (appendJournalEntry ?r s)"
    by (rule appendJournalEntry_filesys_cong) (simp_all add: clearTimeout_def)
  show "fst (resolve i dec who now s)"
    by (simp add: eq)
  show "persistDir (snd (resolve i dec who now s)) = persistDir s"
    by (simp add: eq setTimeout_def promise_resolve_def appendJournalEntry_frame clearTimeout_def)
  show "pending (snd (resolve i dec who now s)) = pending s"
    by (simp add: eq setTimeout_def promise_resolve_def appendJournalEntry_frame clearTimeout_def)
  show "entries (snd (resolve i dec who now s)) = (entries s)[e := (entries s ! e)\<lparr>pe_record := ?r\<rparr>]"
    by (simp add: eq setTimeout_def promise_resolve_def appendJournalEntry_frame clearTimeout_def)
  show "timers (snd (resolve i dec who now s)) =
           (timers s)[pe_timer (entries s ! e) :=
              (if t_status (timers s ! pe_timer (entries s ! e)) = Scheduled
               then (timers s ! pe_timer (entries s ! e))\<lparr>t_status := Cleared\<rparr>
               else timers s ! pe_timer (entries s ! e))]
           @ [\<lparr>t_callback = EvictCb i e, t_delay = RESOLVED_ENTRY_GRACE_MS,
                t_status = Scheduled\<rparr>]"
    by (simp add: eq setTimeout_def promise_resolve_def appendJournalEntry_frame clearTimeout_def)
  show "promises (snd (resolve i dec who now s)) =
           (promises s)[pe_promise (entries s ! e) :=
              \<lparr>p_state = (if p_state (promises s ! pe_promise (entries s ! e)) = Unsettled
                           then Fulfilled (Some dec)
                           else p_state (promises s ! pe_promise (entries s ! e))),
                p_resolve_calls = Suc (p_resolve_calls (promises s ! pe_promise (entries s ! e)))\<rparr>]"
    by (simp add: eq setTimeout_def promise_resolve_def appendJournalEntry_frame clearTimeout_def)
  show "filesys (snd (resolve i dec who now s)) = filesys (appendJournalEntry ?r s)"
    by (simp add: eq setTimeout_def promise_resolve_def fs)
qed

lemma resolve_failure:
  "\<not> fst (resolve i dec who now s) \<Longrightarrow> snd (resolve i dec who now s) = s"
  by (auto simp add: resolve_def Let_def split: option.split prod.split)

lemma fire_not_scheduled:
  "\<not> (t < length (timers s) \<and> t_status (timers s ! t) = Scheduled) \<Longrightarrow> fire t now s = s"
  by (auto simp add: fire_def)

lemma fire_expire:
  assumes "t < length (timers s)" and "t_status (timers s ! t) = Scheduled"
    and "t_callback (timers s ! t) = ExpireCb e"
  shows "persistDir (fire t now s) = persistDir s"
    and "pending (fire t now s) = pending s"
    and "filesys (fire t now s) = filesys s"
    and "entries (fire t now s) =
           (entries s)[e := (entries s ! e)\<lparr>pe_record :=
              (pe_record (entries s ! e))\<lparr>resolvedAtMs := Some now, decision := None,
                                            resolvedBy := Null\<rparr>\<rparr>]"
    and "timers (fire t now s) =
           (timers s)[t := (timers s ! t)\<lparr>t_status := Fired\<rparr>]
           @ [\<lparr>t_callback = EvictCb (rec_id (pe_record (entries s ! e))) e,
                t_delay = RESOLVED_ENTRY_GRACE_MS, t_status = Scheduled\<rparr>]"
    and "promises (fire t now s) =
           (promises s)[pe_promise (entries s ! e) :=
              \<lparr>p_state = (if p_state (promises s ! pe_promise (entries s ! e)) = Unsettled
                           then Fulfilled None
                           else p_state (promises s ! pe_promise (entries s ! e))),
                p_resolve_calls = Suc (p_resolve_calls (promises s ! pe_promise (entries s ! e)))\<rparr>]"
  using assms
  by (simp_all add: fire_def expire_def setTimeout_def promise_resolve_def Let_def)

lemma fire_evict:
  assumes "t < length (timers s)" and "t_status (timers s ! t) = Scheduled"
    and "t_callback (timers s ! t) = EvictCb i e"
  shows "persistDir (fire t now s) = persistDir s"
    and "pending (fire t now s) =
           (if pending s i = Some e then (pending s)(i := None) else pending s)"
    and "filesys (fire t now s) = filesys s"
    and "entries (fire t now s) = entries s"
    and "timers (fire t now s) = (timers s)[t := (timers s ! t)\<lparr>t_status := Fired\<rparr>]"
    and "promises (fire t now s) = promises s"
  using assms
  by (simp_all add: fire_def evict_def)

subsection \<open>Updating one object of a list\<close>

lemma nth_update_entry:
  "pe_timer (es[e := (es ! e)\<lparr>pe_record := r\<rparr>] ! x) = pe_timer (es ! x)"
  "pe_promise (es[e := (es ! e)\<lparr>pe_record := r\<rparr>] ! x) = pe_promise (es ! x)"
  "pe_record (es[e := (es ! e)\<lparr>pe_record := r\<rparr>] ! x) =
     (if x = e \<and> e < length es then r else pe_record (es ! x))"
proof -
  show "pe_timer (es[e := (es ! e)\<lparr>pe_record := r\<rparr>] ! x) = pe_timer (es ! x)"
    by (cases "e < length es") (simp_all add: nth_list_update list_update_beyond)
  show "pe_promise (es[e := (es ! e)\<lparr>pe_record := r\<rparr>] ! x) = pe_promise (es ! x)"
    by (cases "e < length es") (simp_all add: nth_list_update list_update_beyond)
  show "pe_record (es[e := (es ! e)\<lparr>pe_record := r\<rparr>] ! x) =
     (if x = e \<and> e < length es then r else pe_record (es ! x))"
    by (cases "e < length es") (auto simp add: nth_list_update list_update_beyond)
qed

lemma nth_update_timer:
  "t_callback (ts[t := (ts ! t)\<lparr>t_status := st\<rparr>] ! x) = t_callback (ts ! x)"
  "t_delay (ts[t := (ts ! t)\<lparr>t_status := st\<rparr>] ! x) = t_delay (ts ! x)"
  "t_status (ts[t := (ts ! t)\<lparr>t_status := st\<rparr>] ! x) =
     (if x = t \<and> t < length ts then st else t_status (ts ! x))"
proof -
  show "t_callback (ts[t := (ts ! t)\<lparr>t_status := st\<rparr>] ! x) = t_callback (ts ! x)"
    by (cases "t < length ts") (simp_all add: nth_list_update list_update_beyond)
  show "t_delay (ts[t := (ts ! t)\<lparr>t_status := st\<rparr>] ! x) = t_delay (ts ! x)"
    by (cases "t < length ts") (simp_all add: nth_list_update list_update_beyond)
  show "t_status (ts[t := (ts ! t)\<lparr>t_status := st\<rparr>] ! x) =
     (if x = t \<and> t < length ts then st else t_status (ts ! x))"
    by (cases "t < length ts") (auto simp add: nth_list_update list_update_beyond)
qed

lemma nth_update_timer_if:
  "t_callback (ts[t := (if c then (ts ! t)\<lparr>t_status := st\<rparr> else ts ! t)] ! x) =
     t_callback (ts ! x)"
  "t_delay (ts[t := (if c then (ts ! t)\<lparr>t_status := st\<rparr> else ts ! t)] ! x) =
     t_delay (ts ! x)"
  "t_status (ts[t := (if c then (ts ! t)\<lparr>t_status := st\<rparr> else ts ! t)] ! x) =
     (if x = t \<and> t < length ts \<and> c then st else t_status (ts ! x))"
  by (cases c; simp add: nth_update_timer)+

subsection \<open>The invariants hold in every run\<close>

lemma heap_ok_new: "heap_ok (new_manager dir fs')"
  by (simp add: heap_ok_def new_manager_def)

lemma heap_ok_register:
  assumes "heap_ok s" and "register r ms s = Inr (p, s')"
  shows "heap_ok s'"
proof (cases "pending s (rec_id r)")
  case (Some e)
  with assms show ?thesis
    by (auto simp add: register_def Let_def split: if_splits)
next
  case None
  from assms(2) have s': "s' = s\<lparr>promises := promises s @ [\<lparr>p_state = Unsettled, p_resolve_calls = 0\<rparr>],
              timers := timers s @ [\<lparr>t_callback = ExpireCb (length (entries s)), t_delay = ms,
                                      t_status = Scheduled\<rparr>],
              entries := entries s @ [\<lparr>pe_record = r, pe_timer = length (timers s),
                                        pe_promise = length (promises s)\<rparr>],
              pending := (pending s)(rec_id r \<mapsto> length (entries s))\<rparr>"
    by (auto simp add: register_fresh [OF None])
  from assms(1) show ?thesis
    unfolding heap_ok_def s'
    by (auto simp add: nth_append less_Suc_eq)
qed


lemma heap_ok_resolve:
  assumes "heap_ok s"
  shows "heap_ok (snd (resolve i dec who now s))"
proof (cases "fst (resolve i dec who now s)")
  case False
  then show ?thesis using assms by (simp add: resolve_failure)
next
  case True
  then obtain e where e: "pending s i = Some e"
      "resolvedAtMs (pe_record (entries s ! e)) = None"
    by (auto simp add: resolve_fst)
  note fields = resolve_success(2-6) [OF e, of dec who now]
  let ?s' = "snd (resolve i dec who now s)"
  from assms have len: "length (promises s) = length (entries s)"
    and ent: "\<And>x. x < length (entries s) \<Longrightarrow> pe_promise (entries s ! x) = x \<and>
        pe_timer (entries s ! x) < length (timers s) \<and>
        t_callback (timers s ! pe_timer (entries s ! x)) = ExpireCb x"
    and tim: "\<And>t x. t < length (timers s) \<Longrightarrow> t_callback (timers s ! t) = ExpireCb x \<Longrightarrow>
          x < length (entries s) \<and> pe_timer (entries s ! x) = t"
    and pen: "\<And>j x. pending s j = Some x \<Longrightarrow>
        x < length (entries s) \<and> rec_id (pe_record (entries s ! x)) = j"
    unfolding heap_ok_def by blast+
  have a: "length (promises ?s') = length (entries ?s')"
    by (simp add: fields len)
  have b: "pe_promise (entries ?s' ! x) = x \<and>
        pe_timer (entries ?s' ! x) < length (timers ?s') \<and>
        t_callback (timers ?s' ! pe_timer (entries ?s' ! x)) = ExpireCb x"
    if "x < length (entries ?s')" for x
    using that ent [of x] by (auto simp add: fields nth_append nth_update_entry nth_update_timer_if)
  have c: "x < length (entries ?s') \<and> pe_timer (entries ?s' ! x) = t"
    if "t < length (timers ?s')" "t_callback (timers ?s' ! t) = ExpireCb x" for t x
    using that tim [of t x] by (auto simp add: fields nth_append nth_update_entry nth_update_timer_if split: if_splits)
  have d: "x < length (entries ?s') \<and> rec_id (pe_record (entries ?s' ! x)) = j"
    if "pending ?s' j = Some x" for j x
    using that pen [of j x] by (auto simp add: fields nth_update_entry)
  from a b c d show ?thesis
    unfolding heap_ok_def by blast
qed

lemma heap_ok_fire:
  assumes "heap_ok s"
  shows "heap_ok (fire t now s)"
proof (cases "t < length (timers s) \<and> t_status (timers s ! t) = Scheduled")
  case False
  then show ?thesis using assms by (simp add: fire_not_scheduled)
next
  case True
  let ?s' = "fire t now s"
  from assms have len: "length (promises s) = length (entries s)"
    and ent: "\<And>x. x < length (entries s) \<Longrightarrow> pe_promise (entries s ! x) = x \<and>
        pe_timer (entries s ! x) < length (timers s) \<and>
        t_callback (timers s ! pe_timer (entries s ! x)) = ExpireCb x"
    and tim: "\<And>u x. u < length (timers s) \<Longrightarrow> t_callback (timers s ! u) = ExpireCb x \<Longrightarrow>
          x < length (entries s) \<and> pe_timer (entries s ! x) = u"
    and pen: "\<And>j x. pending s j = Some x \<Longrightarrow>
        x < length (entries s) \<and> rec_id (pe_record (entries s ! x)) = j"
    unfolding heap_ok_def by blast+
  show ?thesis
  proof (cases "t_callback (timers s ! t)")
    case (ExpireCb e)
    note fields = fire_expire [OF conjunct1 [OF True] conjunct2 [OF True] ExpireCb, of now]
    have a: "length (promises ?s') = length (entries ?s')"
      by (simp add: fields len)
    have b: "pe_promise (entries ?s' ! x) = x \<and>
          pe_timer (entries ?s' ! x) < length (timers ?s') \<and>
          t_callback (timers ?s' ! pe_timer (entries ?s' ! x)) = ExpireCb x"
      if "x < length (entries ?s')" for x
      using that ent [of x] by (auto simp add: fields nth_append nth_update_entry nth_update_timer)
    have c: "x < length (entries ?s') \<and> pe_timer (entries ?s' ! x) = u"
      if "u < length (timers ?s')" "t_callback (timers ?s' ! u) = ExpireCb x" for u x
      using that tim [of u x]
      by (auto simp add: fields nth_append nth_update_entry nth_update_timer split: if_splits)
    have d: "x < length (entries ?s') \<and> rec_id (pe_record (entries ?s' ! x)) = j"
      if "pending ?s' j = Some x" for j x
      using that pen [of j x] by (auto simp add: fields nth_update_entry)
    from a b c d show ?thesis
      unfolding heap_ok_def by blast
  next
    case (EvictCb i e)
    note fields = fire_evict [OF conjunct1 [OF True] conjunct2 [OF True] EvictCb, of now]
    have a: "length (promises ?s') = length (entries ?s')"
      by (simp add: fields len)
    have b: "pe_promise (entries ?s' ! x) = x \<and>
          pe_timer (entries ?s' ! x) < length (timers ?s') \<and>
          t_callback (timers ?s' ! pe_timer (entries ?s' ! x)) = ExpireCb x"
      if "x < length (entries ?s')" for x
      using that ent [of x] by (auto simp add: fields nth_update_timer)
    have c: "x < length (entries ?s') \<and> pe_timer (entries ?s' ! x) = u"
      if "u < length (timers ?s')" "t_callback (timers ?s' ! u) = ExpireCb x" for u x
      using that tim [of u x] by (auto simp add: fields nth_update_timer)
    have d: "x < length (entries ?s') \<and> rec_id (pe_record (entries ?s' ! x)) = j"
      if "pending ?s' j = Some x" for j x
      using that pen [of j x] by (auto simp add: fields split: if_splits)
    from a b c d show ?thesis
      unfolding heap_ok_def by blast
  qed
qed

lemma heap_ok_step: "heap_ok s \<Longrightarrow> heap_ok (step ev s)"
  by (cases ev)
     (auto simp add: heap_ok_resolve heap_ok_fire dest: heap_ok_register split: sum.split)

lemma heap_ok_run: "heap_ok s \<Longrightarrow> heap_ok (run evs s)"
  by (induction evs arbitrary: s) (simp_all add: heap_ok_step)

lemma heap_ok_timer_bound:
  "heap_ok s \<Longrightarrow> x < length (entries s) \<Longrightarrow> pe_timer (entries s ! x) < length (timers s)"
  by (simp add: heap_ok_def)

lemma heap_ok_promise:
  "heap_ok s \<Longrightarrow> x < length (entries s) \<Longrightarrow> pe_promise (entries s ! x) = x"
  by (simp add: heap_ok_def)

lemma heap_ok_length: "heap_ok s \<Longrightarrow> length (promises s) = length (entries s)"
  by (simp add: heap_ok_def)

lemma heap_ok_pending:
  "heap_ok s \<Longrightarrow> pending s i = Some e \<Longrightarrow>
     e < length (entries s) \<and> rec_id (pe_record (entries s ! e)) = i"
  by (simp add: heap_ok_def)

lemma heap_ok_callback:
  "heap_ok s \<Longrightarrow> t < length (timers s) \<Longrightarrow> t_callback (timers s ! t) = ExpireCb e \<Longrightarrow>
     e < length (entries s) \<and> pe_timer (entries s ! e) = t"
  by (simp add: heap_ok_def)

lemma heap_ok_callback_of:
  "heap_ok s \<Longrightarrow> x < length (entries s) \<Longrightarrow>
     t_callback (timers s ! pe_timer (entries s ! x)) = ExpireCb x"
  by (simp add: heap_ok_def)

lemma heap_ok_timer_inj:
  assumes "heap_ok s" and "x < length (entries s)" and "e < length (entries s)"
    and "pe_timer (entries s ! x) = pe_timer (entries s ! e)"
  shows "x = e"
proof -
  have "ExpireCb x = t_callback (timers s ! pe_timer (entries s ! x))"
    using heap_ok_callback_of [OF assms(1,2)] by (rule sym)
  also have "\<dots> = t_callback (timers s ! pe_timer (entries s ! e))"
    by (simp only: assms(4))
  also have "\<dots> = ExpireCb e"
    using assms(1,3) by (rule heap_ok_callback_of)
  finally show ?thesis by (simp only: callback.inject)
qed

lemma race_ok_new: "race_ok (new_manager dir fs')"
  by (simp add: race_ok_def new_manager_def)

lemma race_ok_register:
  assumes "heap_ok s" and "race_ok s" and "register r ms s = Inr (p, s')"
  shows "race_ok s'"
proof (cases "pending s (rec_id r)")
  case (Some e)
  with assms show ?thesis
    by (auto simp add: register_def Let_def split: if_splits)
next
  case None
  from assms(3) have s': "s' = s\<lparr>promises := promises s @ [\<lparr>p_state = Unsettled, p_resolve_calls = 0\<rparr>],
              timers := timers s @ [\<lparr>t_callback = ExpireCb (length (entries s)), t_delay = ms,
                                      t_status = Scheduled\<rparr>],
              entries := entries s @ [\<lparr>pe_record = r, pe_timer = length (timers s),
                                        pe_promise = length (promises s)\<rparr>],
              pending := (pending s)(rec_id r \<mapsto> length (entries s))\<rparr>"
    by (auto simp add: register_fresh [OF None])
  note len = heap_ok_length [OF assms(1)]
  have "entry_race_ok (pe_record (entries s' ! x)) (timers s' ! pe_timer (entries s' ! x))
          (promises s' ! x)" if x: "x < length (entries s')" for x
  proof (cases "x < length (entries s)")
    case True
    with assms(2) have "entry_race_ok (pe_record (entries s ! x))
        (timers s ! pe_timer (entries s ! x)) (promises s ! x)"
      unfolding race_ok_def by blast
    with True heap_ok_timer_bound [OF assms(1) True] show ?thesis
      by (simp add: s' nth_append len)
  next
    case False
    with x have "x = length (entries s)" by (simp add: s')
    then show ?thesis
      by (simp add: s' nth_append len entry_race_ok_def)
  qed
  then show ?thesis unfolding race_ok_def by blast
qed

lemma race_ok_entry:
  "race_ok s \<Longrightarrow> x < length (entries s) \<Longrightarrow>
     entry_race_ok (pe_record (entries s ! x)) (timers s ! pe_timer (entries s ! x))
       (promises s ! x)"
  by (simp add: race_ok_def)

lemma race_ok_unresolved:
  assumes "race_ok s" and "x < length (entries s)"
    and "resolvedAtMs (pe_record (entries s ! x)) = None"
  shows "t_status (timers s ! pe_timer (entries s ! x)) = Scheduled"
    and "promises s ! x = \<lparr>p_state = Unsettled, p_resolve_calls = 0\<rparr>"
  using race_ok_entry [OF assms(1,2)] assms(3) by (simp_all add: entry_race_ok_def)

lemma race_ok_scheduled:
  assumes "race_ok s" and "x < length (entries s)"
    and "t_status (timers s ! pe_timer (entries s ! x)) = Scheduled"
  shows "promises s ! x = \<lparr>p_state = Unsettled, p_resolve_calls = 0\<rparr>"
  using race_ok_entry [OF assms(1,2)] assms(3) by (simp add: entry_race_ok_def)

text \<open>The entry that a successful \<open>resolve\<close> resolves, and every other entry.\<close>

lemma resolve_this_entry:
  assumes h: "heap_ok s" and r: "race_ok s"
    and e: "pending s i = Some e" "resolvedAtMs (pe_record (entries s ! e)) = None"
  shows "entries (snd (resolve i dec who now s)) ! e =
           (entries s ! e)\<lparr>pe_record :=
              (pe_record (entries s ! e))\<lparr>resolvedAtMs := Some now, decision := Some dec,
                                            resolvedBy := or_null who\<rparr>\<rparr>"
    and "timers (snd (resolve i dec who now s)) ! pe_timer (entries s ! e) =
           (timers s ! pe_timer (entries s ! e))\<lparr>t_status := Cleared\<rparr>"
    and "promises (snd (resolve i dec who now s)) ! e =
           \<lparr>p_state = Fulfilled (Some dec), p_resolve_calls = 1\<rparr>"
proof -
  note fields = resolve_success(2-6) [OF e, of dec who now]
  from heap_ok_pending [OF h e(1)] have el: "e < length (entries s)" by simp
  note tl = heap_ok_timer_bound [OF h el]
  note pe = heap_ok_promise [OF h el]
  note pl = heap_ok_length [OF h]
  note un = race_ok_unresolved [OF r el e(2)]
  show "entries (snd (resolve i dec who now s)) ! e =
           (entries s ! e)\<lparr>pe_record :=
              (pe_record (entries s ! e))\<lparr>resolvedAtMs := Some now, decision := Some dec,
                                            resolvedBy := or_null who\<rparr>\<rparr>"
    using el by (simp add: fields)
  show "timers (snd (resolve i dec who now s)) ! pe_timer (entries s ! e) =
           (timers s ! pe_timer (entries s ! e))\<lparr>t_status := Cleared\<rparr>"
    using tl un(1) by (simp add: fields nth_append)
  show "promises (snd (resolve i dec who now s)) ! e =
           \<lparr>p_state = Fulfilled (Some dec), p_resolve_calls = 1\<rparr>"
    using el un(2) by (simp add: fields pe pl)
qed

lemma resolve_other_entry:
  assumes h: "heap_ok s"
    and e: "pending s i = Some e" "resolvedAtMs (pe_record (entries s ! e)) = None"
    and x: "x < length (entries s)" "x \<noteq> e"
  shows "entries (snd (resolve i dec who now s)) ! x = entries s ! x"
    and "timers (snd (resolve i dec who now s)) ! pe_timer (entries s ! x) =
           timers s ! pe_timer (entries s ! x)"
    and "promises (snd (resolve i dec who now s)) ! x = promises s ! x"
proof -
  note fields = resolve_success(2-6) [OF e, of dec who now]
  from heap_ok_pending [OF h e(1)] have el: "e < length (entries s)" by simp
  note pe = heap_ok_promise [OF h el]
  have ne: "pe_timer (entries s ! x) \<noteq> pe_timer (entries s ! e)"
    using heap_ok_timer_inj [OF h x(1) el] x(2) by blast
  show "entries (snd (resolve i dec who now s)) ! x = entries s ! x"
    using x(2) by (simp add: fields)
  show "timers (snd (resolve i dec who now s)) ! pe_timer (entries s ! x) =
           timers s ! pe_timer (entries s ! x)"
    using heap_ok_timer_bound [OF h x(1)] ne by (simp add: fields nth_append)
  show "promises (snd (resolve i dec who now s)) ! x = promises s ! x"
    using x(2) by (simp add: fields pe)
qed

text \<open>The entry that a running expiry timer resolves, and every other entry.\<close>

lemma expire_this_entry:
  assumes h: "heap_ok s" and r: "race_ok s"
    and t: "t < length (timers s)" "t_status (timers s ! t) = Scheduled"
      "t_callback (timers s ! t) = ExpireCb e"
  shows "e < length (entries s)" and "pe_timer (entries s ! e) = t"
    and "entries (fire t now s) ! e =
           (entries s ! e)\<lparr>pe_record :=
              (pe_record (entries s ! e))\<lparr>resolvedAtMs := Some now, decision := None,
                                            resolvedBy := Null\<rparr>\<rparr>"
    and "timers (fire t now s) ! t = (timers s ! t)\<lparr>t_status := Fired\<rparr>"
    and "promises (fire t now s) ! e = \<lparr>p_state = Fulfilled None, p_resolve_calls = 1\<rparr>"
proof -
  note fields = fire_expire [OF t, of now]
  from heap_ok_callback [OF h t(1,3)]
  show el: "e < length (entries s)" and et: "pe_timer (entries s ! e) = t"
    by simp_all
  note pe = heap_ok_promise [OF h el]
  note pl = heap_ok_length [OF h]
  from t(2) et have "t_status (timers s ! pe_timer (entries s ! e)) = Scheduled"
    by simp
  note un = race_ok_scheduled [OF r el this]
  show "entries (fire t now s) ! e =
           (entries s ! e)\<lparr>pe_record :=
              (pe_record (entries s ! e))\<lparr>resolvedAtMs := Some now, decision := None,
                                            resolvedBy := Null\<rparr>\<rparr>"
    using el by (simp add: fields)
  show "timers (fire t now s) ! t = (timers s ! t)\<lparr>t_status := Fired\<rparr>"
    using t(1) by (simp add: fields nth_append)
  show "promises (fire t now s) ! e = \<lparr>p_state = Fulfilled None, p_resolve_calls = 1\<rparr>"
    using el un by (simp add: fields pe pl)
qed

lemma expire_other_entry:
  assumes h: "heap_ok s"
    and t: "t < length (timers s)" "t_status (timers s ! t) = Scheduled"
      "t_callback (timers s ! t) = ExpireCb e"
    and x: "x < length (entries s)" "x \<noteq> e"
  shows "entries (fire t now s) ! x = entries s ! x"
    and "timers (fire t now s) ! pe_timer (entries s ! x) =
           timers s ! pe_timer (entries s ! x)"
    and "promises (fire t now s) ! x = promises s ! x"
proof -
  note fields = fire_expire [OF t, of now]
  from heap_ok_callback [OF h t(1,3)]
  have el: "e < length (entries s)" and et: "pe_timer (entries s ! e) = t"
    by simp_all
  note pe = heap_ok_promise [OF h el]
  have ne: "pe_timer (entries s ! x) \<noteq> t"
    using heap_ok_timer_inj [OF h x(1) el] x(2) et by auto
  show "entries (fire t now s) ! x = entries s ! x"
    using x(2) by (simp add: fields)
  show "timers (fire t now s) ! pe_timer (entries s ! x) =
           timers s ! pe_timer (entries s ! x)"
    using heap_ok_timer_bound [OF h x(1)] ne by (simp add: fields nth_append)
  show "promises (fire t now s) ! x = promises s ! x"
    using x(2) by (simp add: fields pe)
qed

lemma evict_any_entry:
  assumes h: "heap_ok s"
    and t: "t < length (timers s)" "t_status (timers s ! t) = Scheduled"
      "t_callback (timers s ! t) = EvictCb i e"
    and x: "x < length (entries s)"
  shows "entries (fire t now s) ! x = entries s ! x"
    and "timers (fire t now s) ! pe_timer (entries s ! x) =
           timers s ! pe_timer (entries s ! x)"
    and "promises (fire t now s) ! x = promises s ! x"
proof -
  note fields = fire_evict [OF t, of now]
  have ne: "pe_timer (entries s ! x) \<noteq> t"
    using heap_ok_callback_of [OF h x] t(3) by auto
  show "entries (fire t now s) ! x = entries s ! x"
    by (simp add: fields)
  show "timers (fire t now s) ! pe_timer (entries s ! x) =
           timers s ! pe_timer (entries s ! x)"
    using ne by (simp add: fields)
  show "promises (fire t now s) ! x = promises s ! x"
    by (simp add: fields)
qed

lemma race_ok_resolve:
  assumes h: "heap_ok s" and r: "race_ok s"
  shows "race_ok (snd (resolve i dec who now s))"
proof (cases "fst (resolve i dec who now s)")
  case False
  then show ?thesis using r by (simp add: resolve_failure)
next
  case True
  then obtain e where e: "pending s i = Some e"
      "resolvedAtMs (pe_record (entries s ! e)) = None"
    by (auto simp add: resolve_fst)
  let ?s' = "snd (resolve i dec who now s)"
  have len: "length (entries ?s') = length (entries s)"
    by (simp add: resolve_success(4) [OF e])
  have "entry_race_ok (pe_record (entries ?s' ! x)) (timers ?s' ! pe_timer (entries ?s' ! x))
          (promises ?s' ! x)" if "x < length (entries ?s')" for x
  proof (cases "x = e")
    case True
    show ?thesis
      unfolding True
      by (simp add: resolve_this_entry [OF h r e] entry_race_ok_def)
  next
    case False
    from that len have xl: "x < length (entries s)" by simp
    show ?thesis
      using race_ok_entry [OF r xl]
      by (simp add: resolve_other_entry [OF h e xl False])
  qed
  then show ?thesis by (simp add: race_ok_def)
qed

lemma race_ok_fire:
  assumes h: "heap_ok s" and r: "race_ok s"
  shows "race_ok (fire t now s)"
proof (cases "t < length (timers s) \<and> t_status (timers s ! t) = Scheduled")
  case False
  then show ?thesis using r by (simp add: fire_not_scheduled)
next
  case True
  then have t: "t < length (timers s)" "t_status (timers s ! t) = Scheduled"
    by simp_all
  let ?s' = "fire t now s"
  show ?thesis
  proof (cases "t_callback (timers s ! t)")
    case (ExpireCb e)
    have len: "length (entries ?s') = length (entries s)"
      by (simp add: fire_expire(4) [OF t ExpireCb])
    note this_e = expire_this_entry [OF h r t ExpireCb]
    have "entry_race_ok (pe_record (entries ?s' ! x))
            (timers ?s' ! pe_timer (entries ?s' ! x)) (promises ?s' ! x)"
      if "x < length (entries ?s')" for x
    proof (cases "x = e")
      case True
      show ?thesis
        unfolding True
        by (simp add: this_e entry_race_ok_def)
    next
      case False
      from that len have xl: "x < length (entries s)" by simp
      show ?thesis
        using race_ok_entry [OF r xl]
        by (simp add: expire_other_entry [OF h t ExpireCb xl False])
    qed
    then show ?thesis by (simp add: race_ok_def)
  next
    case (EvictCb i e)
    have len: "length (entries ?s') = length (entries s)"
      by (simp add: fire_evict(4) [OF t EvictCb])
    have "entry_race_ok (pe_record (entries ?s' ! x))
            (timers ?s' ! pe_timer (entries ?s' ! x)) (promises ?s' ! x)"
      if "x < length (entries ?s')" for x
    proof -
      from that len have xl: "x < length (entries s)" by simp
      show ?thesis
        using race_ok_entry [OF r xl]
        by (simp add: evict_any_entry [OF h t EvictCb xl])
    qed
    then show ?thesis by (simp add: race_ok_def)
  qed
qed

lemma race_ok_step: "heap_ok s \<Longrightarrow> race_ok s \<Longrightarrow> race_ok (step ev s)"
  by (cases ev)
     (auto simp add: race_ok_resolve race_ok_fire dest: race_ok_register split: sum.split)

lemma invariants_run:
  "heap_ok s \<Longrightarrow> race_ok s \<Longrightarrow> heap_ok (run evs s) \<and> race_ok (run evs s)"
  by (induction evs arbitrary: s) (simp_all add: heap_ok_step race_ok_step)

lemma invariants_new_run:
  "heap_ok (run evs (new_manager dir fs'))" "race_ok (run evs (new_manager dir fs'))"
  using invariants_run [OF heap_ok_new race_ok_new] by simp_all

subsection \<open>The text of a journal entry\<close>






declare digits.simps [simp del]









subsection \<open>Writing the journal\<close>







subsection \<open>The journal over events\<close>

lemma journal_observers_cong:
  assumes "persistDir s' = persistDir s" and "filesys s' = filesys s"
  shows "journal_content s' = journal_content s"
    and "journal_writable s' = journal_writable s"
    and "journal_readable s' = journal_readable s"
  using assms
  by (simp_all add: journal_content_def journal_writable_def journal_readable_def
      journalPath_def split: option.split)



subsection \<open>Resolving a pending request\<close>

lemma resolve_noop:
  "pending s i = None \<or>
   (\<exists>x. pending s i = Some x \<and> resolvedAtMs (pe_record (entries s ! x)) \<noteq> None) \<Longrightarrow>
     resolve i dec who now s = (False, s)"
  by (auto simp add: resolve_def Let_def)


subsection \<open>No storage configured\<close>

text \<open>
  C7. A manager without a journal path (no \<open>persistDir\<close>, or the empty string, which
  JavaScript reads as false) works as usual. \<open>create\<close> returns the record and leaves
  the manager as it is. \<open>register\<close> of a new id returns a new, unsettled promise,
  tracks the record in a new entry and schedules its expiry timer. In every state that
  the manager reaches, \<open>resolve\<close> of a pending id returns \<^verbatim>\<open>true\<close>, cancels the timer, stamps
  the record and fulfils the promise with the decision by one call, schedules the
  eviction after the grace period and leaves the registry and every other object as
  they are, and a second \<open>resolve\<close> returns \<^verbatim>\<open>false\<close>. The journal write is skipped
  (\<open>appendJournalEntry\<close> changes nothing), so no sequence of events changes the file
  system, and \<open>loadJournal\<close> and \<open>getAuditLog\<close> return the empty list after any
  sequence of events.
\<close>

theorem no_storage:
  assumes "journalPath s = None"
  shows
    "filesys (run evs' s) = filesys s \<and>
     loadJournal JSON_parse (run evs' s) = Inr [] \<and>
     getAuditLog JSON_parse limit (run evs' s) = Inr [] \<and>
     create req timeoutMs id' created uuid s =
       (\<lparr>rec_id = (case id' of
                     Value i \<Rightarrow> if trim i \<noteq> [] then trim i else uuid
                   | Null \<Rightarrow> uuid
                   | Undefined \<Rightarrow> uuid),
         request = req, createdAtMs = created, expiresAtMs = created + timeoutMs,
         requestedByConnId = Undefined, requestedByDeviceId = Undefined,
         requestedByClientId = Undefined,
         resolvedAtMs = None, decision = None, resolvedBy = Undefined\<rparr>, s) \<and>
     (pending s (rec_id r) = None \<longrightarrow>
        (\<exists>s'. register r ms s = Inr (length (promises s), s') \<and>
              getSnapshot (rec_id r) s' = Some r \<and>
              awaitDecision (rec_id r) s' = Some (length (promises s)) \<and>
              promises s' = promises s @ [\<lparr>p_state = Unsettled, p_resolve_calls = 0\<rparr>] \<and>
              timers s' = timers s @ [\<lparr>t_callback = ExpireCb (length (entries s)),
                                          t_delay = ms, t_status = Scheduled\<rparr>] \<and>
              entries s' = entries s @ [\<lparr>pe_record = r, pe_timer = length (timers s),
                                          pe_promise = length (promises s)\<rparr>] \<and>
              pending s' = (pending s)(rec_id r \<mapsto> length (entries s)) \<and>
              persistDir s' = persistDir s \<and>
              filesys s' = filesys s)) \<and>
     (s = run evs (new_manager dir disk) \<and> pending s i = Some e \<and>
      resolvedAtMs (pe_record (entries s ! e)) = None \<longrightarrow>
        fst (resolve i dec who now s) \<and>
        t_status (timers s ! pe_timer (entries s ! e)) = Scheduled \<and>
        t_status (timers (snd (resolve i dec who now s)) ! pe_timer (entries s ! e)) = Cleared \<and>
        getSnapshot i (snd (resolve i dec who now s)) =
          Some (stamped (pe_record (entries s ! e)) dec who now) \<and>
        appendJournalEntry (stamped (pe_record (entries s ! e)) dec who now) s = s \<and>
        filesys (snd (resolve i dec who now s)) = filesys s \<and>
        awaitDecision i s = Some e \<and>
        awaitDecision i (snd (resolve i dec who now s)) = Some e \<and>
        persistDir (snd (resolve i dec who now s)) = persistDir s \<and>
        pending (snd (resolve i dec who now s)) = pending s \<and>
        entries (snd (resolve i dec who now s)) =
          (entries s)[e := (entries s ! e)\<lparr>pe_record :=
             stamped (pe_record (entries s ! e)) dec who now\<rparr>] \<and>
        timers (snd (resolve i dec who now s)) =
          (timers s)[pe_timer (entries s ! e) :=
             (timers s ! pe_timer (entries s ! e))\<lparr>t_status := Cleared\<rparr>]
          @ [\<lparr>t_callback = EvictCb i e, t_delay = RESOLVED_ENTRY_GRACE_MS,
               t_status = Scheduled\<rparr>] \<and>
        promises s ! e = \<lparr>p_state = Unsettled, p_resolve_calls = 0\<rparr> \<and>
        promises (snd (resolve i dec who now s)) ! e =
          \<lparr>p_state = Fulfilled (Some dec), p_resolve_calls = 1\<rparr> \<and>
        promises (snd (resolve i dec who now s)) =
          (promises s)[e := \<lparr>p_state = Fulfilled (Some dec), p_resolve_calls = 1\<rparr>] \<and>
        resolve i dec2 who2 now2 (snd (resolve i dec who now s)) =
          (False, snd (resolve i dec who now s)))"
proof -
  have jp: "journalPath (run evs' s) = None"
    using assms journalPath_cong [OF run_persistDir, of evs' s] by simp
  have a: "filesys (run evs' s) = filesys s"
    using assms by (rule run_filesys_no_dir)
  have b: "loadJournal JSON_parse (run evs' s) = Inr []"
    using jp by (simp add: loadJournal_def)
  have c: "getAuditLog JSON_parse limit (run evs' s) = Inr []"
    using b by (simp add: getAuditLog_def slice_def split: option.split)
  have cr: "create req timeoutMs id' created uuid s =
       (\<lparr>rec_id = (case id' of
                     Value i \<Rightarrow> if trim i \<noteq> [] then trim i else uuid
                   | Null \<Rightarrow> uuid
                   | Undefined \<Rightarrow> uuid),
         request = req, createdAtMs = created, expiresAtMs = created + timeoutMs,
         requestedByConnId = Undefined, requestedByDeviceId = Undefined,
         requestedByClientId = Undefined,
         resolvedAtMs = None, decision = None, resolvedBy = Undefined\<rparr>, s)"
    by (cases id') (auto simp add: create_def Let_def trim_Nil)
  have d: "pending s (rec_id r) = None \<longrightarrow>
        (\<exists>s'. register r ms s = Inr (length (promises s), s') \<and>
              getSnapshot (rec_id r) s' = Some r \<and>
              awaitDecision (rec_id r) s' = Some (length (promises s)) \<and>
              promises s' = promises s @ [\<lparr>p_state = Unsettled, p_resolve_calls = 0\<rparr>] \<and>
              timers s' = timers s @ [\<lparr>t_callback = ExpireCb (length (entries s)),
                                          t_delay = ms, t_status = Scheduled\<rparr>] \<and>
              entries s' = entries s @ [\<lparr>pe_record = r, pe_timer = length (timers s),
                                          pe_promise = length (promises s)\<rparr>] \<and>
              pending s' = (pending s)(rec_id r \<mapsto> length (entries s)) \<and>
              persistDir s' = persistDir s \<and>
              filesys s' = filesys s)"
    by (simp add: register_fresh getSnapshot_def awaitDecision_def)
  have res: "fst (resolve i dec who now s) \<and>
        t_status (timers s ! pe_timer (entries s ! e)) = Scheduled \<and>
        t_status (timers (snd (resolve i dec who now s)) ! pe_timer (entries s ! e)) = Cleared \<and>
        getSnapshot i (snd (resolve i dec who now s)) =
          Some (stamped (pe_record (entries s ! e)) dec who now) \<and>
        appendJournalEntry (stamped (pe_record (entries s ! e)) dec who now) s = s \<and>
        filesys (snd (resolve i dec who now s)) = filesys s \<and>
        awaitDecision i s = Some e \<and>
        awaitDecision i (snd (resolve i dec who now s)) = Some e \<and>
        persistDir (snd (resolve i dec who now s)) = persistDir s \<and>
        pending (snd (resolve i dec who now s)) = pending s \<and>
        entries (snd (resolve i dec who now s)) =
          (entries s)[e := (entries s ! e)\<lparr>pe_record :=
             stamped (pe_record (entries s ! e)) dec who now\<rparr>] \<and>
        timers (snd (resolve i dec who now s)) =
          (timers s)[pe_timer (entries s ! e) :=
             (timers s ! pe_timer (entries s ! e))\<lparr>t_status := Cleared\<rparr>]
          @ [\<lparr>t_callback = EvictCb i e, t_delay = RESOLVED_ENTRY_GRACE_MS,
               t_status = Scheduled\<rparr>] \<and>
        promises s ! e = \<lparr>p_state = Unsettled, p_resolve_calls = 0\<rparr> \<and>
        promises (snd (resolve i dec who now s)) ! e =
          \<lparr>p_state = Fulfilled (Some dec), p_resolve_calls = 1\<rparr> \<and>
        promises (snd (resolve i dec who now s)) =
          (promises s)[e := \<lparr>p_state = Fulfilled (Some dec), p_resolve_calls = 1\<rparr>] \<and>
        resolve i dec2 who2 now2 (snd (resolve i dec who now s)) =
          (False, snd (resolve i dec who now s))"
    if reach: "s = run evs (new_manager dir disk)"
      and e: "pending s i = Some e" "resolvedAtMs (pe_record (entries s ! e)) = None"
  proof -
    let ?s' = "snd (resolve i dec who now s)"
    have h: "heap_ok s" and r: "race_ok s"
      unfolding reach by (rule invariants_new_run)+
    from heap_ok_pending [OF h e(1)] have el: "e < length (entries s)" by simp
    note pe = heap_ok_promise [OF h el]
    note un = race_ok_unresolved [OF r el e(2)]
    note this_e = resolve_this_entry [OF h r e, of dec who now]
    note fields = resolve_success [OF e, of dec who now]
    have t': "t_status (timers ?s' ! pe_timer (entries s ! e)) = Cleared"
      by (simp add: this_e(2))
    have sn: "getSnapshot i ?s' = Some (stamped (pe_record (entries s ! e)) dec who now)"
      by (simp add: getSnapshot_def fields(3) e(1) this_e(1) stamped_def)
    have skip: "appendJournalEntry (stamped (pe_record (entries s ! e)) dec who now) s = s"
      using assms by (rule appendJournalEntry_no_dir)
    have fs: "filesys ?s' = filesys s"
      using assms by (rule resolve_filesys_no_dir)
    have aw0: "awaitDecision i s = Some e"
      by (simp add: awaitDecision_def e(1) pe)
    have aw: "awaitDecision i ?s' = Some e"
      by (simp add: awaitDecision_def fields(3) e(1) this_e(1) pe)
    have pr: "promises ?s' =
          (promises s)[e := \<lparr>p_state = Fulfilled (Some dec), p_resolve_calls = 1\<rparr>]"
      by (simp add: fields(6) pe un(2))
    have en: "entries ?s' =
          (entries s)[e := (entries s ! e)\<lparr>pe_record :=
             stamped (pe_record (entries s ! e)) dec who now\<rparr>]"
      by (simp add: fields(4) stamped_def)
    have tm: "timers ?s' =
          (timers s)[pe_timer (entries s ! e) :=
             (timers s ! pe_timer (entries s ! e))\<lparr>t_status := Cleared\<rparr>]
          @ [\<lparr>t_callback = EvictCb i e, t_delay = RESOLVED_ENTRY_GRACE_MS,
               t_status = Scheduled\<rparr>]"
      by (simp add: fields(5) un(1))
    have again: "resolve i dec2 who2 now2 ?s' = (False, ?s')"
      by (rule resolve_noop) (simp add: fields(3) e(1) this_e(1))
    from fields(1) un t' sn skip fs aw0 aw fields(2) fields(3) en tm this_e(3) pr again
    show ?thesis by blast
  qed
  from a b c cr d res show ?thesis by blast
qed

text \<open>
  The witness is the scenario of the tests: a manager without a directory, a request
  \<^verbatim>\<open>echo test\<close> registered and approved at time 7.
\<close>

theorem no_storage_witness:
  "journalPath (run [Register (record0 ''a'' ''echo test'') 30000] (new_manager None fs0)) = None \<and>
   fst (resolve ''a'' ''approve'' Undefined 7
          (run [Register (record0 ''a'' ''echo test'') 30000] (new_manager None fs0))) \<and>
   getSnapshot ''a''
     (snd (resolve ''a'' ''approve'' Undefined 7
             (run [Register (record0 ''a'' ''echo test'') 30000] (new_manager None fs0)))) =
     Some (stamped (record0 ''a'' ''echo test'') ''approve'' Undefined 7) \<and>
   promises
     (snd (resolve ''a'' ''approve'' Undefined 7
             (run [Register (record0 ''a'' ''echo test'') 30000] (new_manager None fs0)))) ! 0 =
     \<lparr>p_state = Fulfilled (Some ''approve''), p_resolve_calls = 1\<rparr> \<and>
   filesys
     (snd (resolve ''a'' ''approve'' Undefined 7
             (run [Register (record0 ''a'' ''echo test'') 30000] (new_manager None fs0)))) = fs0 \<and>
   loadJournal parse0
     (run [Resolve ''a'' ''approve'' Undefined 7]
        (run [Register (record0 ''a'' ''echo test'') 30000] (new_manager None fs0))) = Inr [] \<and>
   getAuditLog parse0 None
     (run [Resolve ''a'' ''approve'' Undefined 7]
        (run [Register (record0 ''a'' ''echo test'') 30000] (new_manager None fs0))) = Inr []"
proof -
  let ?evs = "[Register (record0 ''a'' ''echo test'') 30000]"
  let ?s = "run ?evs (new_manager None fs0)"
  have h: "journalPath ?s = None"
    by (simp add: model_defs)
  have p: "pending ?s ''a'' = Some 0"
    by (simp add: model_defs)
  have u: "resolvedAtMs (pe_record (entries ?s ! 0)) = None"
    by (simp add: model_defs)
  have rec: "pe_record (entries ?s ! 0) = record0 ''a'' ''echo test''"
    by (simp add: model_defs)
  have f0: "filesys ?s = fs0"
    by (simp add: model_defs)
  note ns = no_storage [OF h, where evs' = "[Resolve ''a'' ''approve'' Undefined 7]"
      and JSON_parse = parse0 and limit = None and evs = ?evs and dir = None and disk = fs0
      and i = "''a''" and e = 0 and dec = "''approve''" and who = Undefined and now = 7]
  from ns have l: "loadJournal parse0 (run [Resolve ''a'' ''approve'' Undefined 7] ?s) = Inr []"
    and g: "getAuditLog parse0 None (run [Resolve ''a'' ''approve'' Undefined 7] ?s) = Inr []"
    by blast+
  from ns p u
  have "fst (resolve ''a'' ''approve'' Undefined 7 ?s) \<and>
        getSnapshot ''a'' (snd (resolve ''a'' ''approve'' Undefined 7 ?s)) =
          Some (stamped (pe_record (entries ?s ! 0)) ''approve'' Undefined 7) \<and>
        filesys (snd (resolve ''a'' ''approve'' Undefined 7 ?s)) = filesys ?s \<and>
        promises (snd (resolve ''a'' ''approve'' Undefined 7 ?s)) ! 0 =
          \<lparr>p_state = Fulfilled (Some ''approve''), p_resolve_calls = 1\<rparr>"
    by blast
  with h l g show ?thesis
    by (simp only: rec f0)
qed

subsection \<open>Expiry\<close>

text \<open>
  C3. In every state that a manager reaches, when the expiry timer of a registered
  entry runs (it is still scheduled, so no \<open>resolve\<close> has cancelled it), the record of
  the entry gets the time of the run as \<open>resolvedAtMs\<close>, no decision and
  \<^verbatim>\<open>resolvedBy = null\<close>; the promise of the entry, untouched before, is fulfilled with
  \<^verbatim>\<open>null\<close> by one call of its resolving function; the timer has run and the eviction
  of the entry is scheduled after the grace period; the registry is unchanged, and so
  is the file system: no journal entry is written. A later \<open>resolve\<close> of the id of the
  entry returns \<^verbatim>\<open>false\<close> and changes nothing.
\<close>

theorem expiry_resolves:
  assumes "s = run evs (new_manager dir fs')"
  shows
    "e < length (entries s) \<and> t_status (timers s ! pe_timer (entries s ! e)) = Scheduled \<longrightarrow>
       entries (fire (pe_timer (entries s ! e)) now s) ! e =
         (entries s ! e)\<lparr>pe_record :=
            (pe_record (entries s ! e))\<lparr>resolvedAtMs := Some now, decision := None,
                                          resolvedBy := Null\<rparr>\<rparr> \<and>
       promises s ! e = \<lparr>p_state = Unsettled, p_resolve_calls = 0\<rparr> \<and>
       promises (fire (pe_timer (entries s ! e)) now s) ! e =
         \<lparr>p_state = Fulfilled None, p_resolve_calls = 1\<rparr> \<and>
       timers (fire (pe_timer (entries s ! e)) now s) =
         (timers s)[pe_timer (entries s ! e) :=
            (timers s ! pe_timer (entries s ! e))\<lparr>t_status := Fired\<rparr>]
         @ [\<lparr>t_callback = EvictCb (rec_id (pe_record (entries s ! e))) e,
              t_delay = RESOLVED_ENTRY_GRACE_MS, t_status = Scheduled\<rparr>] \<and>
       pending (fire (pe_timer (entries s ! e)) now s) = pending s \<and>
       filesys (fire (pe_timer (entries s ! e)) now s) = filesys s \<and>
       journal_content (fire (pe_timer (entries s ! e)) now s) = journal_content s \<and>
       (pending s i = Some e \<longrightarrow>
          resolve i dec who now2 (fire (pe_timer (entries s ! e)) now s) =
            (False, fire (pe_timer (entries s ! e)) now s))"
proof (intro impI, elim conjE)
  assume el: "e < length (entries s)"
    and sch: "t_status (timers s ! pe_timer (entries s ! e)) = Scheduled"
  have h: "heap_ok s" and r: "race_ok s"
    unfolding assms by (rule invariants_new_run)+
  let ?t = "pe_timer (entries s ! e)"
  note t = heap_ok_timer_bound [OF h el] sch heap_ok_callback_of [OF h el]
  note this_e = expire_this_entry [OF h r t]
  note fields = fire_expire [OF t, of now]
  have jc: "journal_content (fire ?t now s) = journal_content s"
    by (rule journal_observers_cong) (simp_all add: fields)
  have again: "resolve i dec who now2 (fire ?t now s) = (False, fire ?t now s)"
    if "pending s i = Some e"
    by (rule resolve_noop) (simp add: fields(2) that this_e(3))
  from this_e(3,5) race_ok_scheduled [OF r el sch] fields(5,2,3) jc again
  show "entries (fire ?t now s) ! e =
         (entries s ! e)\<lparr>pe_record :=
            (pe_record (entries s ! e))\<lparr>resolvedAtMs := Some now, decision := None,
                                          resolvedBy := Null\<rparr>\<rparr> \<and>
       promises s ! e = \<lparr>p_state = Unsettled, p_resolve_calls = 0\<rparr> \<and>
       promises (fire ?t now s) ! e = \<lparr>p_state = Fulfilled None, p_resolve_calls = 1\<rparr> \<and>
       timers (fire ?t now s) =
         (timers s)[?t := (timers s ! ?t)\<lparr>t_status := Fired\<rparr>]
         @ [\<lparr>t_callback = EvictCb (rec_id (pe_record (entries s ! e))) e,
              t_delay = RESOLVED_ENTRY_GRACE_MS, t_status = Scheduled\<rparr>] \<and>
       pending (fire ?t now s) = pending s \<and>
       filesys (fire ?t now s) = filesys s \<and>
       journal_content (fire ?t now s) = journal_content s \<and>
       (pending s i = Some e \<longrightarrow>
          resolve i dec who now2 (fire ?t now s) = (False, fire ?t now s))"
    by blast
qed

text \<open>
  The witness registers a request on a manager with a journal directory and lets its
  timer (timer 0) run at time 30005.
\<close>

theorem expiry_resolves_witness:
  "getSnapshot ''a''
     (fire 0 30005 (run [Register (record0 ''a'' ''ls'') 30000]
                      (new_manager (Some ''/var/x'') fs0))) =
     Some ((record0 ''a'' ''ls'')\<lparr>resolvedAtMs := Some 30005, decision := None,
                                 resolvedBy := Null\<rparr>) \<and>
   promises (fire 0 30005 (run [Register (record0 ''a'' ''ls'') 30000]
                      (new_manager (Some ''/var/x'') fs0))) ! 0 =
     \<lparr>p_state = Fulfilled None, p_resolve_calls = 1\<rparr> \<and>
   filesys (fire 0 30005 (run [Register (record0 ''a'' ''ls'') 30000]
                      (new_manager (Some ''/var/x'') fs0))) = fs0 \<and>
   \<not> fst (resolve ''a'' ''approve'' Undefined 30006
           (fire 0 30005 (run [Register (record0 ''a'' ''ls'') 30000]
                      (new_manager (Some ''/var/x'') fs0))))"
proof -
  let ?s = "run [Register (record0 ''a'' ''ls'') 30000] (new_manager (Some ''/var/x'') fs0)"
  have el: "(0::nat) < length (entries ?s)"
    by (simp add: model_defs)
  have t0: "pe_timer (entries ?s ! 0) = 0"
    by (simp add: model_defs)
  have sch: "t_status (timers ?s ! pe_timer (entries ?s ! 0)) = Scheduled"
    by (simp add: model_defs)
  have p: "pending ?s ''a'' = Some 0"
    by (simp add: model_defs)
  from expiry_resolves [where s = ?s and evs = "[Register (record0 ''a'' ''ls'') 30000]"
      and dir = "Some ''/var/x''" and fs' = fs0 and e = 0 and now = 30005 and i = "''a''"
      and dec = "''approve''" and who = Undefined and ?now2.0 = 30006, OF refl] el sch p
  have "entries (fire 0 30005 ?s) ! 0 =
         (entries ?s ! 0)\<lparr>pe_record :=
            (pe_record (entries ?s ! 0))\<lparr>resolvedAtMs := Some 30005, decision := None,
                                          resolvedBy := Null\<rparr>\<rparr> \<and>
       promises (fire 0 30005 ?s) ! 0 = \<lparr>p_state = Fulfilled None, p_resolve_calls = 1\<rparr> \<and>
       pending (fire 0 30005 ?s) = pending ?s \<and>
       filesys (fire 0 30005 ?s) = filesys ?s \<and>
       resolve ''a'' ''approve'' Undefined 30006 (fire 0 30005 ?s) = (False, fire 0 30005 ?s)"
    unfolding t0 by blast
  with p show ?thesis
    by (simp add: getSnapshot_def model_defs)
qed

subsection \<open>Resolution is final\<close>













subsection \<open>Lines of a text\<close>









subsection \<open>The journal accumulates\<close>



lemma journal_line_text:
  "journal_line (resolution_record s c) = resolution_text s c @ [nl]"
  by (simp add: journal_line_def resolution_text_def)








end
